theory Spec2Isabelle
  imports Complex_Main
begin

section \<open>Request bodies: JSON values\<close>

text \<open>
  \<^verbatim>\<open>app.use(express.json())\<close> leaves the parsed JSON document in \<^verbatim>\<open>req.body\<close>.
  A JSON number is modelled by its exact rational value (every finite double is a
  rational, and the only operations the schemas apply to numbers, comparison with an
  integer bound and \<^verbatim>\<open>Number.isInteger\<close>, are exact on doubles).  A string is the list
  of its code units, an object the list of its members in insertion order, read by key.
  A JavaScript value that may be \<^verbatim>\<open>undefined\<close> (a member that is absent, the result of
  an optional field) is a \<open>json option\<close>, with \<open>None\<close> for \<^verbatim>\<open>undefined\<close>.
\<close>

datatype json =
    JNull
  | JBool bool
  | JNum rat
  | JStr string
  | JArr "json list"
  | JObj "(string \<times> json) list"

text \<open>A segment of an issue path: an object key or an array index.\<close>

datatype pseg = Key string | Idx nat

text \<open>The name zod gives to the run-time type of a value (its \<^verbatim>\<open>getParsedType\<close>).\<close>

fun parsedType :: "json option \<Rightarrow> string" where
  "parsedType None = ''undefined''"
| "parsedType (Some JNull) = ''null''"
| "parsedType (Some (JBool b)) = ''boolean''"
| "parsedType (Some (JNum x)) = ''number''"
| "parsedType (Some (JStr s)) = ''string''"
| "parsedType (Some (JArr xs)) = ''array''"
| "parsedType (Some (JObj kvs)) = ''object''"

section \<open>The schema combinators of zod that the server uses\<close>

text \<open>
  \<^verbatim>\<open>server.ts\<close> builds its schemas from the combinators of the zod library (version 3
  API: \<^verbatim>\<open>required_error\<close>, \<^verbatim>\<open>invalid_type_error\<close>, \<^verbatim>\<open>errorMap\<close>, \<^verbatim>\<open>error.errors\<close>).
  The library is imported, not part of the repository; the schema terms below are the
  declarations of \<^verbatim>\<open>server.ts\<close>, and \<open>zparse\<close> writes out what the library's
  \<^verbatim>\<open>_parse\<close> methods do for exactly these combinators.  The pattern that \<^verbatim>\<open>.email()\<close>
  tests differs between releases of the library and is not fixed by the repository, so
  it is a parameter \<open>em\<close> of the parser.
\<close>

datatype issue_code =
  invalid_type | too_small | too_big | invalid_string | invalid_enum_value | custom

fun code_name :: "issue_code \<Rightarrow> string" where
  "code_name invalid_type = ''invalid_type''"
| "code_name too_small = ''too_small''"
| "code_name too_big = ''too_big''"
| "code_name invalid_string = ''invalid_string''"
| "code_name invalid_enum_value = ''invalid_enum_value''"
| "code_name custom = ''custom''"

text \<open>
  An issue as the library reports it: \<open>code\<close>, \<open>path\<close> and \<open>message\<close>, and the further
  members that depend on the code (\<^verbatim>\<open>expected\<close>, \<^verbatim>\<open>received\<close>, \<^verbatim>\<open>minimum\<close>, ...).
\<close>

record issue =
  code :: issue_code
  extras :: "(string \<times> json) list"
  path :: "pseg list"
  message :: string

text \<open>
  The creation parameters of a schema: none, the pair \<^verbatim>\<open>required_error\<close> /
  \<^verbatim>\<open>invalid_type_error\<close>, or an \<^verbatim>\<open>errorMap\<close>.  The only error map of \<^verbatim>\<open>server.ts\<close> is
  the constant function \<^verbatim>\<open>() => ({ message: ... })\<close>, kept as its message.
\<close>

datatype create_params =
    NoParams
  | TypeErrors "string option" "string option"
  | ErrorMap string

datatype string_check = StrMin nat string | StrEmail string

datatype number_check = NumInt string | NumMin rat string | NumMax rat string

datatype zschema =
    ZString create_params "string_check list"
  | ZNumber create_params "number_check list"
  | ZBoolean create_params
  | ZEnum "string list" create_params
  | ZArray zschema
  | ZObject "(string \<times> zschema) list"
  | ZOptional zschema
  | ZDefault zschema json
  | ZEffects zschema "json option \<Rightarrow> bool" string

datatype pstatus = Valid | Dirty | Aborted

subsection \<open>Messages\<close>

text \<open>
  The library's default error map, for the two codes that reach it here, and the map
  that a schema's creation parameters install in front of it.
\<close>

definition quoted :: "string \<Rightarrow> string" where
  "quoted s = [CHR 0x27] @ s @ [CHR 0x27]"

fun joinValues :: "string list \<Rightarrow> string" where
  "joinValues [] = []"
| "joinValues [v] = quoted v"
| "joinValues (v # vs) = quoted v @ '' | '' @ joinValues vs"

definition default_invalid_type :: "string \<Rightarrow> string \<Rightarrow> string" where
  "default_invalid_type expected received =
     (if received = ''undefined'' then ''Required''
      else ''Expected '' @ expected @ '', received '' @ received)"

definition default_invalid_enum_value :: "string list \<Rightarrow> string \<Rightarrow> string" where
  "default_invalid_enum_value opts received =
     ''Invalid enum value. Expected '' @ joinValues opts @ '', received '' @ quoted received"

definition schema_message ::
  "create_params \<Rightarrow> issue_code \<Rightarrow> json option \<Rightarrow> string \<Rightarrow> string" where
  "schema_message p c d defaultError =
     (case p of
        NoParams \<Rightarrow> defaultError
      | ErrorMap m \<Rightarrow> m
      | TypeErrors required_error invalid_type_error \<Rightarrow>
          if c = invalid_enum_value then defaultError
          else if d = None then (case required_error of Some m \<Rightarrow> m | None \<Rightarrow> defaultError)
          else if c \<noteq> invalid_type then defaultError
          else (case invalid_type_error of Some m \<Rightarrow> m | None \<Rightarrow> defaultError))"

definition type_issue :: "create_params \<Rightarrow> pseg list \<Rightarrow> string \<Rightarrow> json option \<Rightarrow> issue" where
  "type_issue p pth expected d =
     \<lparr> code = invalid_type,
       extras = [(''expected'', JStr expected), (''received'', JStr (parsedType d))],
       path = pth,
       message = schema_message p invalid_type d (default_invalid_type expected (parsedType d)) \<rparr>"

subsection \<open>Checks of strings and numbers\<close>

definition isInteger :: "rat \<Rightarrow> bool" where
  "isInteger x = (of_int \<lfloor>x\<rfloor> = x)"

fun string_check_issues :: "(string \<Rightarrow> bool) \<Rightarrow> pseg list \<Rightarrow> string \<Rightarrow> string_check \<Rightarrow> issue list" where
  "string_check_issues em pth s (StrMin n msg) =
     (if length s < n
      then [\<lparr> code = too_small,
              extras = [(''minimum'', JNum (of_nat n)), (''type'', JStr ''string''),
                        (''inclusive'', JBool True), (''exact'', JBool False)],
              path = pth, message = msg \<rparr>]
      else [])"
| "string_check_issues em pth s (StrEmail msg) =
     (if \<not> em s
      then [\<lparr> code = invalid_string, extras = [(''validation'', JStr ''email'')],
              path = pth, message = msg \<rparr>]
      else [])"

fun number_check_issues :: "pseg list \<Rightarrow> rat \<Rightarrow> number_check \<Rightarrow> issue list" where
  "number_check_issues pth x (NumInt msg) =
     (if \<not> isInteger x
      then [\<lparr> code = invalid_type,
              extras = [(''expected'', JStr ''integer''), (''received'', JStr ''float'')],
              path = pth, message = msg \<rparr>]
      else [])"
| "number_check_issues pth x (NumMin m msg) =
     (if x < m
      then [\<lparr> code = too_small,
              extras = [(''minimum'', JNum m), (''type'', JStr ''number''),
                        (''inclusive'', JBool True), (''exact'', JBool False)],
              path = pth, message = msg \<rparr>]
      else [])"
| "number_check_issues pth x (NumMax m msg) =
     (if m < x
      then [\<lparr> code = too_big,
              extras = [(''maximum'', JNum m), (''type'', JStr ''number''),
                        (''inclusive'', JBool True), (''exact'', JBool False)],
              path = pth, message = msg \<rparr>]
      else [])"

subsection \<open>Merging the results of members and elements\<close>

type_synonym parse_return = "pstatus \<times> json option"

definition INVALID :: parse_return where
  "INVALID = (Aborted, None)"

definition checked :: "issue list \<Rightarrow> json \<Rightarrow> parse_return \<times> issue list" where
  "checked iss v = ((if iss = [] then Valid else Dirty, Some v), iss)"

text \<open>
  \<^verbatim>\<open>ParseStatus.mergeArray\<close>: aborted as soon as one element is, dirty if one is dirty,
  and the array of the elements' values otherwise.  An element whose value is
  \<^verbatim>\<open>undefined\<close> is written \<open>JNull\<close>, as \<^verbatim>\<open>res.json\<close> writes it; no schema of
  \<^verbatim>\<open>server.ts\<close> has such an element.
\<close>

fun mergeArray :: "pstatus \<Rightarrow> parse_return list \<Rightarrow> json list \<Rightarrow> parse_return" where
  "mergeArray st [] acc = (st, Some (JArr acc))"
| "mergeArray st ((Aborted, v) # rs) acc = INVALID"
| "mergeArray st ((Dirty, v) # rs) acc =
     mergeArray Dirty rs (acc @ (case v of Some j \<Rightarrow> [j] | None \<Rightarrow> [JNull]))"
| "mergeArray st ((Valid, v) # rs) acc =
     mergeArray st rs (acc @ (case v of Some j \<Rightarrow> [j] | None \<Rightarrow> [JNull]))"

text \<open>
  \<^verbatim>\<open>ParseStatus.mergeObjectSync\<close>: aborted as soon as one member is; otherwise the
  object of the members whose value is defined, in the order of the shape.
\<close>

fun mergeObjectSync ::
  "pstatus \<Rightarrow> (string \<times> parse_return) list \<Rightarrow> (string \<times> json) list \<Rightarrow> parse_return" where
  "mergeObjectSync st [] acc = (st, Some (JObj acc))"
| "mergeObjectSync st ((k, (Aborted, v)) # rs) acc = INVALID"
| "mergeObjectSync st ((k, (Dirty, v)) # rs) acc =
     mergeObjectSync Dirty rs (acc @ (case v of Some j \<Rightarrow> [(k, j)] | None \<Rightarrow> []))"
| "mergeObjectSync st ((k, (Valid, v)) # rs) acc =
     mergeObjectSync st rs (acc @ (case v of Some j \<Rightarrow> [(k, j)] | None \<Rightarrow> []))"

subsection \<open>The parser\<close>

text \<open>
  \<open>zparse em schema path data\<close> is the library's \<^verbatim>\<open>schema._parse\<close> on \<open>data\<close> at
  \<open>path\<close>: the status and value it returns, and the issues it appends to the context,
  in the order it appends them.  An object parses every member of its shape in the
  order of the shape, an array every element in index order, whatever the earlier ones
  returned; unknown keys of an object are dropped (\<^verbatim>\<open>z.object\<close> strips by default).
\<close>

fun zparse ::
  "(string \<Rightarrow> bool) \<Rightarrow> zschema \<Rightarrow> pseg list \<Rightarrow> json option \<Rightarrow> parse_return \<times> issue list" where
  "zparse em (ZString p checks) pth d =
     (case d of
        Some (JStr s) \<Rightarrow> checked (concat (map (string_check_issues em pth s) checks)) (JStr s)
      | _ \<Rightarrow> (INVALID, [type_issue p pth ''string'' d]))"
| "zparse em (ZNumber p checks) pth d =
     (case d of
        Some (JNum x) \<Rightarrow> checked (concat (map (number_check_issues pth x) checks)) (JNum x)
      | _ \<Rightarrow> (INVALID, [type_issue p pth ''number'' d]))"
| "zparse em (ZBoolean p) pth d =
     (case d of
        Some (JBool b) \<Rightarrow> ((Valid, Some (JBool b)), [])
      | _ \<Rightarrow> (INVALID, [type_issue p pth ''boolean'' d]))"
| "zparse em (ZEnum vals p) pth d =
     (case d of
        Some (JStr s) \<Rightarrow>
          if s \<in> set vals then ((Valid, Some (JStr s)), [])
          else (INVALID,
                [\<lparr> code = invalid_enum_value,
                   extras = [(''received'', JStr s), (''options'', JArr (map JStr vals))],
                   path = pth,
                   message = schema_message p invalid_enum_value d
                               (default_invalid_enum_value vals s) \<rparr>])
      | _ \<Rightarrow> (INVALID, [type_issue p pth (joinValues vals) d]))"
| "zparse em (ZArray t) pth d =
     (case d of
        Some (JArr xs) \<Rightarrow>
          (let rs = map (\<lambda>(i, x). zparse em t (pth @ [Idx i]) (Some x)) (enumerate 0 xs)
           in (mergeArray Valid (map fst rs) [], concat (map snd rs)))
      | _ \<Rightarrow> (INVALID, [type_issue NoParams pth ''array'' d]))"
| "zparse em (ZObject shape) pth d =
     (case d of
        Some (JObj kvs) \<Rightarrow>
          (let rs = map (\<lambda>(k, t). (k, zparse em t (pth @ [Key k]) (map_of kvs k))) shape
           in (mergeObjectSync Valid (map (\<lambda>(k, r). (k, fst r)) rs) [],
               concat (map (\<lambda>(k, r). snd r) rs)))
      | _ \<Rightarrow> (INVALID, [type_issue NoParams pth ''object'' d]))"
| "zparse em (ZOptional t) pth d =
     (case d of None \<Rightarrow> ((Valid, None), []) | Some v \<Rightarrow> zparse em t pth d)"
| "zparse em (ZDefault t dflt) pth d =
     (case d of None \<Rightarrow> zparse em t pth (Some dflt) | Some v \<Rightarrow> zparse em t pth d)"
| "zparse em (ZEffects t refinement msg) pth d =
     (case zparse em t pth d of
        ((Aborted, v), iss) \<Rightarrow> (INVALID, iss)
      | ((st, v), iss) \<Rightarrow>
          if refinement v then ((st, v), iss)
          else ((Dirty, v), iss @ [\<lparr> code = custom, extras = [], path = pth, message = msg \<rparr>]))"

subsection \<open>\<^verbatim>\<open>parseAsync\<close>\<close>

text \<open>
  \<^verbatim>\<open>schema.parseAsync(data)\<close> resolves to the value when the status is valid, and
  otherwise throws a \<^verbatim>\<open>ZodError\<close> holding the issues; with no issue to report the
  library throws a plain \<^verbatim>\<open>Error\<close> instead.
\<close>

datatype js_error = Error string

datatype parse_outcome =
    Resolved "json option"
  | ZodError "issue list"
  | Thrown js_error

definition parseAsync :: "(string \<Rightarrow> bool) \<Rightarrow> zschema \<Rightarrow> json option \<Rightarrow> parse_outcome" where
  "parseAsync em schema d =
     (case zparse em schema [] d of
        ((Valid, v), iss) \<Rightarrow> Resolved v
      | ((st, v), iss) \<Rightarrow>
          if iss = [] then Thrown (Error ''Validation failed but no issues detected.'')
          else ZodError iss)"

section \<open>The schemas of \<^verbatim>\<open>server.ts\<close>\<close>

text \<open>
  \<^verbatim>\<open>UserSchema\<close>, lines 17 to 49.  \<^verbatim>\<open>.describe(...)\<close> only attaches a description for
  the generated document and is left out.
\<close>

definition UserSchema :: zschema where
  "UserSchema = ZObject
     [(''name'',
         ZString (TypeErrors (Some ''Name is required.'') (Some ''Name must be a string.''))
           [StrMin 2 ''Name must be at least 2 characters long.'']),
      (''email'',
         ZString (TypeErrors (Some ''Email is required.'') (Some ''Email must be a string.''))
           [StrEmail ''Invalid email format. Please provide a valid email.'']),
      (''age'',
         ZOptional
           (ZNumber (TypeErrors None (Some ''Age must be a number.''))
              [NumInt ''Age must be an integer.'',
               NumMin 0 ''Age must be a non-negative number.''])),
      (''roles'',
         ZDefault
           (ZArray (ZEnum [''admin'', ''user''] (ErrorMap ''Role must be 'admin' or 'user'.'')))
           (JArr [JStr ''user'']))]"

definition CreateUserDTO :: zschema where
  "CreateUserDTO = UserSchema"

text \<open>\<^verbatim>\<open>.partial()\<close> makes every member of an object schema optional.\<close>

fun partial :: "zschema \<Rightarrow> zschema" where
  "partial (ZObject shape) = ZObject (map (\<lambda>(k, t). (k, ZOptional t)) shape)"
| "partial t = t"

definition UpdateUserDTO :: zschema where
  "UpdateUserDTO = partial UserSchema"

definition GetUserQueryDTO :: zschema where
  "GetUserQueryDTO = ZObject
     [(''includeRoles'',
         ZEffects
           (ZDefault
              (ZBoolean (TypeErrors (Some ''IncludeRoles is required.'')
                                    (Some ''IncludeRoles must be a boolean.'')))
              (JBool False))
           (\<lambda>val. parsedType val = ''boolean'')
           ''IncludeRoles must be a boolean value.''),
      (''page'',
         ZDefault
           (ZNumber (TypeErrors None (Some ''Page must be a number.''))
              [NumInt ''Page must be an integer.'',
               NumMin 1 ''Page must be at least 1.''])
           (JNum 1)),
      (''limit'',
         ZDefault
           (ZNumber (TypeErrors None (Some ''Limit must be a number.''))
              [NumInt ''Limit must be an integer.'',
               NumMin 1 ''Limit must be at least 1.'',
               NumMax 100 ''Limit cannot exceed 100.''])
           (JNum 10))]"

text \<open>The schema registered for the 400 response of \<^verbatim>\<open>POST /users\<close>, lines 111 to 120.\<close>

definition ValidationErrorResponse :: zschema where
  "ValidationErrorResponse = ZObject
     [(''error'', ZString NoParams []),
      (''details'',
         ZArray (ZObject
           [(''code'', ZString NoParams []),
            (''message'', ZString NoParams []),
            (''path'', ZArray (ZString NoParams []))]))]"

section \<open>The validation middleware and the route\<close>

text \<open>
  What a middleware does with a request: it calls \<^verbatim>\<open>next()\<close> after replacing
  \<^verbatim>\<open>req.body\<close>, it calls \<^verbatim>\<open>next(error)\<close>, or it sends a response itself, which ends
  the pipeline.
\<close>

datatype mw_outcome =
    Next "json option"
  | NextError js_error
  | Respond nat json

fun pseg_json :: "pseg \<Rightarrow> json" where
  "pseg_json (Key k) = JStr k"
| "pseg_json (Idx i) = JNum (of_nat i)"

text \<open>
  \<^verbatim>\<open>res.json\<close> serialises each issue with all its members; the order of the members
  of a JSON object carries no meaning, and \<open>code\<close>, \<open>message\<close> and \<open>path\<close> are
  written first here.
\<close>

definition issue_json :: "issue \<Rightarrow> json" where
  "issue_json i =
     JObj ((''code'', JStr (code_name (code i))) #
           (''message'', JStr (message i)) #
           (''path'', JArr (map pseg_json (path i))) #
           extras i)"

text \<open>Reading a member of a JSON object; \<open>None\<close> when there is none.\<close>

fun json_member :: "string \<Rightarrow> json \<Rightarrow> json option" where
  "json_member k (JObj kvs) = map_of kvs k"
| "json_member k v = None"

definition validation_failed :: "issue list \<Rightarrow> json" where
  "validation_failed errors =
     JObj [(''error'', JStr ''Validation failed''), (''details'', JArr (map issue_json errors))]"

text \<open>
  \<^verbatim>\<open>validateRequest(schema)\<close>, lines 128 to 148.  The middleware uses its schema only
  through \<^verbatim>\<open>schema.parseAsync\<close>, so the schema is given as that method.
\<close>

definition validateRequest :: "(json option \<Rightarrow> parse_outcome) \<Rightarrow> json option \<Rightarrow> mw_outcome" where
  "validateRequest schema_parseAsync body =
     (case schema_parseAsync body of
        Resolved v \<Rightarrow> Next v
      | ZodError errors \<Rightarrow> Respond 400 (validation_failed errors)
      | Thrown error \<Rightarrow> NextError error)"

text \<open>
  \<^verbatim>\<open>app.post('/users', validateRequest(CreateUserDTO), handler)\<close>, lines 155 to 159: the
  handler runs only when the middleware calls \<^verbatim>\<open>next()\<close>, and echoes \<^verbatim>\<open>req.body\<close>
  with status 201.  An error passed to \<^verbatim>\<open>next\<close> leaves the route unhandled.
\<close>

datatype http_outcome =
    Response nat "json option"
  | Unhandled js_error

definition create_user_handler :: "json option \<Rightarrow> http_outcome" where
  "create_user_handler user = Response 201 user"

definition post_users :: "(string \<Rightarrow> bool) \<Rightarrow> json option \<Rightarrow> http_outcome" where
  "post_users em body =
     (case validateRequest (parseAsync em CreateUserDTO) body of
        Next req_body \<Rightarrow> create_user_handler req_body
      | NextError error \<Rightarrow> Unhandled error
      | Respond st j \<Rightarrow> Response st (Some j))"

section \<open>The data model in the specification's words\<close>

text \<open>
  The constraints that the specification's data model puts on a user: \<open>name\<close> is
  required text of at least 2 characters, \<open>email\<close> is required text in email format,
  \<open>age\<close> is an optional integer that is at least 0, \<open>roles\<close> is a sequence of values of
  the enumeration admin, user, and defaults to the sequence holding user when absent.
  \<open>spec_violations\<close> lists the constraints a payload violates, fields in declaration
  order (name, email, age, roles) and the constraints of one field in their order; a
  constraint on the content of a value counts only for a value of the right kind.
\<close>

datatype constraint =
    IsObject
  | Required
  | IsText
  | MinLength nat
  | EmailFormat
  | IsNumber
  | IsInteger
  | AtLeast rat
  | IsSequence
  | InEnumeration

definition spec_role_ok :: "json \<Rightarrow> bool" where
  "spec_role_ok x = (x = JStr ''admin'' \<or> x = JStr ''user'')"

fun spec_name_violations :: "json option \<Rightarrow> constraint list" where
  "spec_name_violations None = [Required]"
| "spec_name_violations (Some (JStr s)) = (if length s < 2 then [MinLength 2] else [])"
| "spec_name_violations (Some v) = [IsText]"

fun spec_email_violations :: "(string \<Rightarrow> bool) \<Rightarrow> json option \<Rightarrow> constraint list" where
  "spec_email_violations em None = [Required]"
| "spec_email_violations em (Some (JStr s)) = (if em s then [] else [EmailFormat])"
| "spec_email_violations em (Some v) = [IsText]"

fun spec_age_violations :: "json option \<Rightarrow> constraint list" where
  "spec_age_violations None = []"
| "spec_age_violations (Some (JNum x)) =
     (if x \<in> \<int> then [] else [IsInteger]) @ (if 0 \<le> x then [] else [AtLeast 0])"
| "spec_age_violations (Some v) = [IsNumber]"

fun spec_roles_violations :: "json option \<Rightarrow> (pseg list \<times> constraint) list" where
  "spec_roles_violations None = []"
| "spec_roles_violations (Some (JArr xs)) =
     map (\<lambda>(i, x). ([Key ''roles'', Idx i], InEnumeration))
       (filter (\<lambda>(i, x). \<not> spec_role_ok x) (enumerate 0 xs))"
| "spec_roles_violations (Some v) = [([Key ''roles''], IsSequence)]"

fun spec_violations ::
  "(string \<Rightarrow> bool) \<Rightarrow> json option \<Rightarrow> (pseg list \<times> constraint) list" where
  "spec_violations em (Some (JObj kvs)) =
     map (Pair [Key ''name'']) (spec_name_violations (map_of kvs ''name'')) @
     map (Pair [Key ''email'']) (spec_email_violations em (map_of kvs ''email'')) @
     map (Pair [Key ''age'']) (spec_age_violations (map_of kvs ''age'')) @
     spec_roles_violations (map_of kvs ''roles'')"
| "spec_violations em body = [([], IsObject)]"

text \<open>A payload that satisfies every field constraint.\<close>

definition spec_satisfies :: "(string \<Rightarrow> bool) \<Rightarrow> (string \<times> json) list \<Rightarrow> bool" where
  "spec_satisfies em kvs =
     ((case map_of kvs ''name'' of Some (JStr s) \<Rightarrow> 2 \<le> length s | _ \<Rightarrow> False) \<and>
      (case map_of kvs ''email'' of Some (JStr s) \<Rightarrow> em s | _ \<Rightarrow> False) \<and>
      (case map_of kvs ''age'' of
         None \<Rightarrow> True | Some (JNum x) \<Rightarrow> x \<in> \<int> \<and> 0 \<le> x | _ \<Rightarrow> False) \<and>
      (case map_of kvs ''roles'' of
         None \<Rightarrow> True | Some (JArr xs) \<Rightarrow> list_all spec_role_ok xs | _ \<Rightarrow> False))"

text \<open>
  The normalized payload: the declared fields that are present, in declaration order,
  and the default for \<open>roles\<close> where \<open>roles\<close> is absent.
\<close>

definition spec_normalized :: "(string \<times> json) list \<Rightarrow> (string \<times> json) list" where
  "spec_normalized kvs =
     (case map_of kvs ''name'' of Some v \<Rightarrow> [(''name'', v)] | None \<Rightarrow> []) @
     (case map_of kvs ''email'' of Some v \<Rightarrow> [(''email'', v)] | None \<Rightarrow> []) @
     (case map_of kvs ''age'' of Some v \<Rightarrow> [(''age'', v)] | None \<Rightarrow> []) @
     [(''roles'', case map_of kvs ''roles'' of Some v \<Rightarrow> v | None \<Rightarrow> JArr [JStr ''user''])]"

subsection \<open>What is reported for a violated constraint\<close>

text \<open>
  The value a payload has at a path, \<open>None\<close> where it has none.
\<close>

fun json_at :: "pseg list \<Rightarrow> json option \<Rightarrow> json option" where
  "json_at [] v = v"
| "json_at (Key k # p) (Some (JObj kvs)) = json_at p (map_of kvs k)"
| "json_at (Idx i # p) (Some (JArr xs)) = (if i < length xs then json_at p (Some (xs ! i)) else None)"
| "json_at p v = None"

text \<open>
  The code and the message that the declarations of \<^verbatim>\<open>UserSchema\<close> attach to each
  constraint of the data model, given the offending value \<open>v\<close>: the messages are the
  ones written in lines 17 to 49, and the library's default wording where the
  declaration gives none (a payload that is not an object, \<open>roles\<close> that is not an
  array).  An element of \<open>roles\<close> outside the enumeration is reported as
  \<open>invalid_enum_value\<close> when it is a string and as \<open>invalid_type\<close> otherwise.
\<close>

fun constraint_code :: "constraint \<Rightarrow> json option \<Rightarrow> issue_code" where
  "constraint_code (MinLength n) v = too_small"
| "constraint_code (AtLeast m) v = too_small"
| "constraint_code EmailFormat v = invalid_string"
| "constraint_code InEnumeration (Some (JStr s)) = invalid_enum_value"
| "constraint_code c v = invalid_type"

fun constraint_message :: "pseg list \<Rightarrow> constraint \<Rightarrow> json option \<Rightarrow> string" where
  "constraint_message p IsObject v =
     (if v = None then ''Required'' else ''Expected object, received '' @ parsedType v)"
| "constraint_message p Required v =
     (if p = [Key ''name''] then ''Name is required.'' else ''Email is required.'')"
| "constraint_message p IsText v =
     (if p = [Key ''name''] then ''Name must be a string.'' else ''Email must be a string.'')"
| "constraint_message p (MinLength n) v = ''Name must be at least 2 characters long.''"
| "constraint_message p EmailFormat v = ''Invalid email format. Please provide a valid email.''"
| "constraint_message p IsNumber v = ''Age must be a number.''"
| "constraint_message p IsInteger v = ''Age must be an integer.''"
| "constraint_message p (AtLeast m) v = ''Age must be a non-negative number.''"
| "constraint_message p IsSequence v = ''Expected array, received '' @ parsedType v"
| "constraint_message p InEnumeration v = ''Role must be 'admin' or 'user'.''"

text \<open>
  The path, code and message of an issue, and the ones expected for a violated
  constraint of a payload.
\<close>

definition issue_summary :: "issue \<Rightarrow> pseg list \<times> issue_code \<times> string" where
  "issue_summary i = (path i, code i, message i)"

definition constraint_report ::
  "json option \<Rightarrow> pseg list \<times> constraint \<Rightarrow> pseg list \<times> issue_code \<times> string" where
  "constraint_report body pc =
     (fst pc, constraint_code (snd pc) (json_at (fst pc) body),
      constraint_message (fst pc) (snd pc) (json_at (fst pc) body))"

text \<open>
  The same three members as they stand in an entry of \<open>details\<close>, and as they are
  expected there for a violated constraint.
\<close>

definition entry_members :: "json \<Rightarrow> json option \<times> json option \<times> json option" where
  "entry_members d = (json_member ''path'' d, json_member ''code'' d, json_member ''message'' d)"

definition constraint_entry ::
  "json option \<Rightarrow> pseg list \<times> constraint \<Rightarrow> json option \<times> json option \<times> json option" where
  "constraint_entry body pc =
     (Some (JArr (map (\<lambda>s. case s of Key k \<Rightarrow> JStr k | Idx i \<Rightarrow> JNum (of_nat i)) (fst pc))),
      Some (JStr (code_name (constraint_code (snd pc) (json_at (fst pc) body)))),
      Some (JStr (constraint_message (fst pc) (snd pc) (json_at (fst pc) body))))"

section \<open>The list-users query in the specification's words\<close>

text \<open>
  \<open>includeRoles\<close> is a boolean that defaults to false, \<open>page\<close> an integer that is at
  least 1 and defaults to 1, \<open>limit\<close> an integer between 1 and 100 inclusive that
  defaults to 10.
\<close>

fun spec_flag_ok :: "json option \<Rightarrow> bool" where
  "spec_flag_ok None = True"
| "spec_flag_ok (Some (JBool b)) = True"
| "spec_flag_ok (Some v) = False"

fun spec_page_ok :: "json option \<Rightarrow> bool" where
  "spec_page_ok None = True"
| "spec_page_ok (Some (JNum x)) = (x \<in> \<int> \<and> 1 \<le> x)"
| "spec_page_ok (Some v) = False"

fun spec_limit_ok :: "json option \<Rightarrow> bool" where
  "spec_limit_ok None = True"
| "spec_limit_ok (Some (JNum x)) = (x \<in> \<int> \<and> 1 \<le> x \<and> x \<le> 100)"
| "spec_limit_ok (Some v) = False"

definition spec_query_ok :: "(string \<times> json) list \<Rightarrow> bool" where
  "spec_query_ok kvs =
     (spec_flag_ok (map_of kvs ''includeRoles'') \<and>
      spec_page_ok (map_of kvs ''page'') \<and>
      spec_limit_ok (map_of kvs ''limit''))"

definition spec_query_normalized :: "(string \<times> json) list \<Rightarrow> (string \<times> json) list" where
  "spec_query_normalized kvs =
     [(''includeRoles'', case map_of kvs ''includeRoles'' of Some v \<Rightarrow> v | None \<Rightarrow> JBool False),
      (''page'', case map_of kvs ''page'' of Some v \<Rightarrow> v | None \<Rightarrow> JNum 1),
      (''limit'', case map_of kvs ''limit'' of Some v \<Rightarrow> v | None \<Rightarrow> JNum 10)]"

section \<open>An email pattern for the worked examples\<close>

text \<open>
  The theorems below hold for every pattern \<open>em\<close>.  Where an example needs one, it
  uses the pattern of zod 3.23,
  \<^verbatim>\<open>/^(?!\.)(?!.*\.\.)([A-Z0-9_'+\-\.]*)[A-Z0-9_+-]@([A-Z0-9][A-Z0-9\-]*\.)+[A-Z]{2,}$/i\<close>:
  one \<^verbatim>\<open>@\<close>; a local part of letters, digits and \<^verbatim>\<open>_'+-.\<close> that does not start
  with a dot, has no two dots in a row and ends with a letter, a digit or one of
  \<^verbatim>\<open>_+-\<close>; a domain of one or more dot-terminated labels and a final label of two or
  more letters.
\<close>

definition is_letter :: "char \<Rightarrow> bool" where
  "is_letter c = (c \<in> set ''abcdefghijklmnopqrstuvwxyzABCDEFGHIJKLMNOPQRSTUVWXYZ'')"

definition is_digit :: "char \<Rightarrow> bool" where
  "is_digit c = (c \<in> set ''0123456789'')"

fun split_at :: "char \<Rightarrow> string \<Rightarrow> string list" where
  "split_at sep [] = [[]]"
| "split_at sep (c # cs) =
     (if c = sep then [] # split_at sep cs
      else (case split_at sep cs of [] \<Rightarrow> [[c]] | p # ps \<Rightarrow> (c # p) # ps))"

fun no_double_dot :: "string \<Rightarrow> bool" where
  "no_double_dot (a # b # cs) = (\<not> (a = CHR ''.'' \<and> b = CHR ''.'') \<and> no_double_dot (b # cs))"
| "no_double_dot cs = True"

definition local_part_ok :: "string \<Rightarrow> bool" where
  "local_part_ok l =
     (case rev l of
        [] \<Rightarrow> False
      | z # _ \<Rightarrow>
          (is_letter z \<or> is_digit z \<or> z \<in> set ''_+-'') \<and>
          list_all (\<lambda>c. is_letter c \<or> is_digit c \<or> c \<in> set ''_'+-.'') l \<and>
          take 1 l \<noteq> ''.'' \<and> no_double_dot l)"

definition label_ok :: "string \<Rightarrow> bool" where
  "label_ok l =
     (case l of
        [] \<Rightarrow> False
      | c # cs \<Rightarrow>
          (is_letter c \<or> is_digit c) \<and>
          list_all (\<lambda>c. is_letter c \<or> is_digit c \<or> c = CHR ''-'') cs)"

definition domain_ok :: "string \<Rightarrow> bool" where
  "domain_ok d =
     (case rev (split_at (CHR ''.'') d) of
        tld # l # ls \<Rightarrow> 2 \<le> length tld \<and> list_all is_letter tld \<and> list_all label_ok (l # ls)
      | _ \<Rightarrow> False)"

definition emailRegex :: "string \<Rightarrow> bool" where
  "emailRegex s =
     (case split_at (CHR ''@'') s of
        [l, d] \<Rightarrow> local_part_ok l \<and> domain_ok d
      | _ \<Rightarrow> False)"

section \<open>Properties of the parser\<close>

subsection \<open>A result is valid exactly when no issue was reported\<close>

lemma mergeArray_Valid:
  "fst (mergeArray st rs acc) = Valid \<longleftrightarrow> st = Valid \<and> (\<forall>r\<in>set rs. fst r = Valid)"
  by (induction st rs acc rule: mergeArray.induct) (auto simp: INVALID_def)

lemma mergeObjectSync_Valid:
  "fst (mergeObjectSync st rs acc) = Valid \<longleftrightarrow> st = Valid \<and> (\<forall>r\<in>set rs. fst (snd r) = Valid)"
  by (induction st rs acc rule: mergeObjectSync.induct) (auto simp: INVALID_def)

lemma zparse_array_Valid:
  "fst (fst (zparse em (ZArray t) pth (Some (JArr xs)))) = Valid \<longleftrightarrow>
     (\<forall>ix\<in>set (enumerate 0 xs).
        fst (fst (zparse em t (pth @ [Idx (fst ix)]) (Some (snd ix)))) = Valid)"
  by (simp add: mergeArray_Valid case_prod_beta)

lemma zparse_object_Valid:
  "fst (fst (zparse em (ZObject shape) pth (Some (JObj kvs)))) = Valid \<longleftrightarrow>
     (\<forall>kt\<in>set shape.
        fst (fst (zparse em (snd kt) (pth @ [Key (fst kt)]) (map_of kvs (fst kt)))) = Valid)"
  by (simp add: mergeObjectSync_Valid case_prod_beta)

lemma zparse_Valid_iff:
  "fst (fst (zparse em t pth d)) = Valid \<longleftrightarrow> snd (zparse em t pth d) = []"
proof (induction em t pth d rule: zparse.induct)
  case (1 em p checks pth d)
  show ?case by (auto simp: checked_def INVALID_def split: option.splits json.splits)
next
  case (2 em p checks pth d)
  show ?case by (auto simp: checked_def INVALID_def split: option.splits json.splits)
next
  case (3 em p pth d)
  show ?case by (auto simp: INVALID_def split: option.splits json.splits)
next
  case (4 em vals p pth d)
  show ?case by (auto simp: INVALID_def split: option.splits json.splits)
next
  case (5 em t pth d)
  show ?case
  proof (cases d)
    case None
    then show ?thesis by (simp add: INVALID_def)
  next
    case (Some j)
    show ?thesis
    proof (cases j)
      case (JArr xs)
      have "\<forall>ix\<in>set (enumerate 0 xs).
              fst (fst (zparse em t (pth @ [Idx (fst ix)]) (Some (snd ix)))) = Valid \<longleftrightarrow>
              snd (zparse em t (pth @ [Idx (fst ix)]) (Some (snd ix))) = []"
        using 5 Some JArr by (metis prod.collapse)
      then show ?thesis using Some JArr
        by (simp add: mergeArray_Valid case_prod_beta)
    qed (simp_all add: Some INVALID_def)
  qed
next
  case (6 em shape pth d)
  show ?case
  proof (cases d)
    case None
    then show ?thesis by (simp add: INVALID_def)
  next
    case (Some j)
    show ?thesis
    proof (cases j)
      case (JObj kvs)
      have "\<forall>kt\<in>set shape.
              fst (fst (zparse em (snd kt) (pth @ [Key (fst kt)]) (map_of kvs (fst kt)))) = Valid \<longleftrightarrow>
              snd (zparse em (snd kt) (pth @ [Key (fst kt)]) (map_of kvs (fst kt))) = []"
        using 6 Some JObj by (metis prod.collapse)
      then show ?thesis using Some JObj
        by (simp add: mergeObjectSync_Valid case_prod_beta)
    qed (simp_all add: Some INVALID_def)
  qed
next
  case (7 em t pth d)
  then show ?case by (cases d) auto
next
  case (8 em t dflt pth d)
  then show ?case by (cases d) auto
next
  case (9 em t refinement msg pth d)
  then show ?case
    by (cases "zparse em t pth d"; cases "fst (fst (zparse em t pth d))")
       (auto simp: INVALID_def split: pstatus.splits if_splits)
qed

subsection \<open>What \<open>parseAsync\<close> returns\<close>

lemma parseAsync_valid:
  "zparse em t [] d = ((Valid, v), iss) \<Longrightarrow> parseAsync em t d = Resolved v"
  by (simp add: parseAsync_def)

lemma parseAsync_invalid:
  assumes "fst (fst (zparse em t [] d)) \<noteq> Valid"
  shows "parseAsync em t d = ZodError (snd (zparse em t [] d))"
    and "snd (zparse em t [] d) \<noteq> []"
proof -
  show ne: "snd (zparse em t [] d) \<noteq> []"
    using assms zparse_Valid_iff[of em t "[]" d] by simp
  obtain st v iss where r: "zparse em t [] d = ((st, v), iss)"
    by (metis prod.collapse)
  with assms ne show "parseAsync em t d = ZodError (snd (zparse em t [] d))"
    by (cases st) (simp_all add: parseAsync_def)
qed

lemma parseAsync_Resolved_iff:
  "parseAsync em t d = Resolved v \<longleftrightarrow> zparse em t [] d = ((Valid, v), [])"
proof
  assume a: "parseAsync em t d = Resolved v"
  obtain st w iss where r: "zparse em t [] d = ((st, w), iss)"
    by (metis prod.collapse)
  from a r have "st = Valid \<and> w = v"
    by (cases st) (auto simp: parseAsync_def split: if_splits)
  moreover from this r have "iss = []"
    using zparse_Valid_iff[of em t "[]" d] by simp
  ultimately show "zparse em t [] d = ((Valid, v), [])" using r by simp
next
  assume "zparse em t [] d = ((Valid, v), [])"
  then show "parseAsync em t d = Resolved v" by (rule parseAsync_valid)
qed

subsection \<open>Objects of four members, and values that are not objects\<close>

lemma zparse_object4:
  "zparse em (ZObject [(k1, t1), (k2, t2), (k3, t3), (k4, t4)]) pth (Some (JObj kvs)) =
     (mergeObjectSync Valid
        [(k1, fst (zparse em t1 (pth @ [Key k1]) (map_of kvs k1))),
         (k2, fst (zparse em t2 (pth @ [Key k2]) (map_of kvs k2))),
         (k3, fst (zparse em t3 (pth @ [Key k3]) (map_of kvs k3))),
         (k4, fst (zparse em t4 (pth @ [Key k4]) (map_of kvs k4)))] [],
      snd (zparse em t1 (pth @ [Key k1]) (map_of kvs k1)) @
      snd (zparse em t2 (pth @ [Key k2]) (map_of kvs k2)) @
      snd (zparse em t3 (pth @ [Key k3]) (map_of kvs k3)) @
      snd (zparse em t4 (pth @ [Key k4]) (map_of kvs k4)))"
  by simp

lemma zparse_not_object:
  "(\<And>kvs. d \<noteq> Some (JObj kvs)) \<Longrightarrow>
   zparse em (ZObject shape) pth d = (INVALID, [type_issue NoParams pth ''object'' d])"
  by (cases d; cases "the d") auto

subsection \<open>The fields of the user schema\<close>

lemma isInteger_Ints: "isInteger x \<longleftrightarrow> x \<in> \<int>"
  by (auto simp: isInteger_def Ints_def)

lemma name_paths:
  "map path (snd (zparse em (ZString p [StrMin 2 m]) pth v)) =
     map (\<lambda>c. pth) (spec_name_violations v)"
  by (cases v rule: spec_name_violations.cases) (simp_all add: checked_def type_issue_def)

lemma name_ok:
  "spec_name_violations v = [] \<Longrightarrow> zparse em (ZString p [StrMin 2 m]) pth v = ((Valid, v), [])"
  by (cases v rule: spec_name_violations.cases) (simp_all add: checked_def split: if_splits)

lemma email_paths:
  "map path (snd (zparse em (ZString p [StrEmail m]) pth v)) =
     map (\<lambda>c. pth) (spec_email_violations em v)"
  by (cases "(em, v)" rule: spec_email_violations.cases) (simp_all add: checked_def type_issue_def)

lemma email_ok:
  "spec_email_violations em v = [] \<Longrightarrow> zparse em (ZString p [StrEmail m]) pth v = ((Valid, v), [])"
  by (cases "(em, v)" rule: spec_email_violations.cases) (simp_all add: checked_def split: if_splits)

lemma age_paths:
  "map path (snd (zparse em (ZOptional (ZNumber p [NumInt m1, NumMin 0 m2])) pth v)) =
     map (\<lambda>c. pth) (spec_age_violations v)"
  by (cases v rule: spec_age_violations.cases)
     (simp_all add: checked_def type_issue_def isInteger_Ints)

lemma age_ok:
  "spec_age_violations v = [] \<Longrightarrow>
   zparse em (ZOptional (ZNumber p [NumInt m1, NumMin 0 m2])) pth v = ((Valid, v), [])"
  by (cases v rule: spec_age_violations.cases)
     (simp_all add: checked_def isInteger_Ints split: if_splits)

lemma enum_role:
  "zparse em (ZEnum [''admin'', ''user''] p) pth (Some x) =
     (if spec_role_ok x then ((Valid, Some x), [])
      else (INVALID, snd (zparse em (ZEnum [''admin'', ''user''] p) pth (Some x))))"
  by (cases x) (auto simp: spec_role_ok_def)

lemma enum_role_path:
  "\<not> spec_role_ok x \<Longrightarrow>
   map path (snd (zparse em (ZEnum [''admin'', ''user''] p) pth (Some x))) = [pth]"
  by (cases x) (auto simp: spec_role_ok_def type_issue_def)

lemma roles_items_paths:
  "map path (concat (map snd
       (map (\<lambda>(i, x). zparse em (ZEnum [''admin'', ''user''] p) (pth @ [Idx i]) (Some x))
          (enumerate n xs)))) =
   map (\<lambda>(i, x). pth @ [Idx i]) (filter (\<lambda>(i, x). \<not> spec_role_ok x) (enumerate n xs))"
proof (induction xs arbitrary: n)
  case Nil
  show ?case by simp
next
  case (Cons x xs)
  show ?case
  proof (cases "spec_role_ok x")
    case True
    then show ?thesis
      using Cons[of "Suc n"] enum_role[of em p "pth @ [Idx n]" x] by simp
  next
    case False
    then show ?thesis
      using Cons[of "Suc n"] enum_role_path[of x em p "pth @ [Idx n]"] by simp
  qed
qed

lemma roles_items_ok:
  "\<forall>x\<in>set xs. spec_role_ok x \<Longrightarrow>
   map (\<lambda>(i, x). zparse em (ZEnum [''admin'', ''user''] p) (pth @ [Idx i]) (Some x))
     (enumerate n xs) = map (\<lambda>x. ((Valid, Some x), [])) xs"
proof (induction xs arbitrary: n)
  case Nil
  show ?case by simp
next
  case (Cons x xs)
  then show ?case using enum_role[of em p "pth @ [Idx n]" x] by simp
qed

lemma mergeArray_all_valid:
  "mergeArray st (map (\<lambda>x. (Valid, Some x)) xs) acc = (st, Some (JArr (acc @ xs)))"
  by (induction xs arbitrary: acc) auto

lemma roles_paths:
  "map path (snd (zparse em
       (ZDefault (ZArray (ZEnum [''admin'', ''user''] p)) (JArr [JStr ''user'']))
       [Key ''roles''] v)) = map fst (spec_roles_violations v)"
proof (cases v rule: spec_roles_violations.cases)
  case 1
  then show ?thesis by simp
next
  case (2 xs)
  have "map fst (spec_roles_violations (Some (JArr xs))) =
        map (\<lambda>(i, x). [Key ''roles''] @ [Idx i])
          (filter (\<lambda>(i, x). \<not> spec_role_ok x) (enumerate 0 xs))"
    by (simp add: case_prod_beta comp_def)
  then show ?thesis
    using 2 roles_items_paths[of em p "[Key ''roles'']" 0 xs] by simp
qed (simp_all add: type_issue_def)

lemma roles_violations_Nil:
  "spec_roles_violations (Some (JArr xs)) = [] \<Longrightarrow> \<forall>x\<in>set xs. spec_role_ok x"
proof
  fix x assume a: "spec_roles_violations (Some (JArr xs)) = []" and x: "x \<in> set xs"
  then obtain i where i: "i < length xs" "xs ! i = x" by (auto simp: in_set_conv_nth)
  then have "(i, x) \<in> set (enumerate 0 xs)" by (simp add: in_set_enumerate_eq)
  with a show "spec_role_ok x" by (auto simp: filter_empty_conv)
qed

lemma roles_ok:
  "spec_roles_violations v = [] \<Longrightarrow>
   zparse em (ZDefault (ZArray (ZEnum [''admin'', ''user''] p)) (JArr [JStr ''user''])) pth v =
     ((Valid, Some (case v of Some r \<Rightarrow> r | None \<Rightarrow> JArr [JStr ''user''])), [])"
proof (cases v rule: spec_roles_violations.cases)
  case 1
  then show ?thesis by simp
next
  case (2 xs)
  assume a: "spec_roles_violations v = []"
  have ok: "\<forall>x\<in>set xs. spec_role_ok x"
    using a unfolding 2 by (rule roles_violations_Nil)
  show ?thesis
    using 2 roles_items_ok[OF ok, of em p pth 0] mergeArray_all_valid[of Valid xs "[]"]
    by (simp add: comp_def)
qed simp_all

subsection \<open>The user schema on a whole payload\<close>

lemma user_issue_paths:
  "map path (snd (zparse em UserSchema [] body)) = map fst (spec_violations em body)"
proof (cases "\<exists>kvs. body = Some (JObj kvs)")
  case True
  then obtain kvs where b: "body = Some (JObj kvs)" by blast
  show ?thesis
    unfolding b UserSchema_def zparse_object4
    by (simp add: name_paths email_paths age_paths roles_paths comp_def del: zparse.simps)
next
  case False
  then have "zparse em UserSchema [] body = (INVALID, [type_issue NoParams [] ''object'' body])"
    unfolding UserSchema_def by (intro zparse_not_object) auto
  moreover have "spec_violations em body = [([], IsObject)]"
    using False by (cases "(em, body)" rule: spec_violations.cases) auto
  ultimately show ?thesis by (simp add: type_issue_def)
qed

lemma user_valid_result:
  assumes "spec_violations em (Some (JObj kvs)) = []"
  shows "zparse em UserSchema [] (Some (JObj kvs)) =
           ((Valid, Some (JObj (spec_normalized kvs))), [])"
proof -
  have n: "spec_name_violations (map_of kvs ''name'') = []"
   and e: "spec_email_violations em (map_of kvs ''email'') = []"
   and a: "spec_age_violations (map_of kvs ''age'') = []"
   and r: "spec_roles_violations (map_of kvs ''roles'') = []"
    using assms by simp_all
  have nn: "map_of kvs ''name'' \<noteq> None"
    using n by (cases "map_of kvs ''name''") auto
  have ee: "map_of kvs ''email'' \<noteq> None"
    using e by (cases "map_of kvs ''email''") auto
  show ?thesis
    unfolding UserSchema_def zparse_object4
    using nn ee
    by (simp add: name_ok[OF n] email_ok[OF e] age_ok[OF a] roles_ok[OF r] spec_normalized_def
          del: zparse.simps split: option.splits)
qed

lemma roles_violations_Nil_iff:
  "spec_roles_violations (Some (JArr xs)) = [] \<longleftrightarrow> list_all spec_role_ok xs"
proof
  assume "spec_roles_violations (Some (JArr xs)) = []"
  then have "\<forall>x\<in>set xs. spec_role_ok x" by (rule roles_violations_Nil)
  then show "list_all spec_role_ok xs"
    by (simp add: list_all_iff)
next
  assume "list_all spec_role_ok xs"
  then have "\<forall>ix\<in>set (enumerate 0 xs). spec_role_ok (snd ix)"
    by (auto simp: list_all_iff in_set_enumerate_eq)
  then have "filter (\<lambda>(i, x). \<not> spec_role_ok x) (enumerate 0 xs) = []"
    by (auto simp: filter_empty_conv)
  then show "spec_roles_violations (Some (JArr xs)) = []"
    by simp
qed

lemma satisfies_iff_no_violation:
  "spec_satisfies em kvs \<longleftrightarrow> spec_violations em (Some (JObj kvs)) = []"
proof -
  have n: "(case map_of kvs ''name'' of Some (JStr s) \<Rightarrow> 2 \<le> length s | _ \<Rightarrow> False) \<longleftrightarrow>
           spec_name_violations (map_of kvs ''name'') = []"
    by (cases "map_of kvs ''name''" rule: spec_name_violations.cases) auto
  have e: "(case map_of kvs ''email'' of Some (JStr s) \<Rightarrow> em s | _ \<Rightarrow> False) \<longleftrightarrow>
           spec_email_violations em (map_of kvs ''email'') = []"
    by (cases "(em, map_of kvs ''email'')" rule: spec_email_violations.cases) auto
  have a: "(case map_of kvs ''age'' of
              None \<Rightarrow> True | Some (JNum x) \<Rightarrow> x \<in> \<int> \<and> 0 \<le> x | _ \<Rightarrow> False) \<longleftrightarrow>
           spec_age_violations (map_of kvs ''age'') = []"
    by (cases "map_of kvs ''age''" rule: spec_age_violations.cases) auto
  have r: "(case map_of kvs ''roles'' of
              None \<Rightarrow> True | Some (JArr xs) \<Rightarrow> list_all spec_role_ok xs | _ \<Rightarrow> False) \<longleftrightarrow>
           spec_roles_violations (map_of kvs ''roles'') = []"
    by (cases "map_of kvs ''roles''" rule: spec_roles_violations.cases)
       (simp_all add: roles_violations_Nil_iff del: spec_roles_violations.simps(2))
  show ?thesis
    unfolding spec_satisfies_def n e a r by simp
qed

lemma user_accepts:
  "spec_satisfies em kvs \<Longrightarrow>
   parseAsync em CreateUserDTO (Some (JObj kvs)) = Resolved (Some (JObj (spec_normalized kvs)))"
  unfolding CreateUserDTO_def
  by (rule parseAsync_valid) (simp only: user_valid_result satisfies_iff_no_violation)

lemma user_rejects:
  assumes "spec_violations em body \<noteq> []"
  shows "parseAsync em CreateUserDTO body = ZodError (snd (zparse em CreateUserDTO [] body))"
proof -
  have "snd (zparse em UserSchema [] body) \<noteq> []"
    using assms user_issue_paths[of em body] by auto
  then have "fst (fst (zparse em CreateUserDTO [] body)) \<noteq> Valid"
    unfolding CreateUserDTO_def by (simp only: zparse_Valid_iff not_False_eq_True)
  then show ?thesis by (rule parseAsync_invalid)
qed

subsection \<open>The email pattern on the examples, and the route by the outcome of the parser\<close>

lemmas email_examples_defs =
  emailRegex_def local_part_ok_def domain_ok_def label_ok_def is_letter_def is_digit_def

lemma emailRegex_al: "emailRegex ''al@example.com''"
  by (simp add: email_examples_defs)

lemma emailRegex_bo: "emailRegex ''bo@x.com''"
  by (simp add: email_examples_defs)

lemma emailRegex_bad: "\<not> emailRegex ''bad''"
  by (simp add: email_examples_defs)

lemma post_users_Resolved:
  "parseAsync em CreateUserDTO body = Resolved v \<Longrightarrow>
   validateRequest (parseAsync em CreateUserDTO) body = Next v \<and>
   post_users em body = Response 201 v"
  by (simp add: post_users_def validateRequest_def create_user_handler_def)

lemma post_users_ZodError:
  "parseAsync em CreateUserDTO body = ZodError errors \<Longrightarrow>
   validateRequest (parseAsync em CreateUserDTO) body = Respond 400 (validation_failed errors) \<and>
   post_users em body = Response 400 (Some (validation_failed errors))"
  by (simp add: post_users_def validateRequest_def)

lemma issue_json_members:
  "json_member ''code'' (issue_json i) = Some (JStr (code_name (code i)))"
  "json_member ''message'' (issue_json i) = Some (JStr (message i))"
  "json_member ''path'' (issue_json i) = Some (JArr (map pseg_json (path i)))"
  by (simp_all add: issue_json_def)

lemma user_parse_A_bad:
  "\<not> em ''bad'' \<Longrightarrow>
   snd (zparse em UserSchema [] (Some (JObj [(''name'', JStr ''A''), (''email'', JStr ''bad'')]))) =
     [\<lparr> code = too_small,
         extras = [(''minimum'', JNum 2), (''type'', JStr ''string''),
                   (''inclusive'', JBool True), (''exact'', JBool False)],
         path = [Key ''name''], message = ''Name must be at least 2 characters long.'' \<rparr>,
      \<lparr> code = invalid_string, extras = [(''validation'', JStr ''email'')],
         path = [Key ''email''],
         message = ''Invalid email format. Please provide a valid email.'' \<rparr>]"
  by (simp add: UserSchema_def checked_def)

lemma user_not_valid_iff:
  "fst (fst (zparse em CreateUserDTO [] body)) \<noteq> Valid \<longleftrightarrow> spec_violations em body \<noteq> []"
proof -
  have "snd (zparse em UserSchema [] body) = [] \<longleftrightarrow> spec_violations em body = []"
    using user_issue_paths[of em body] by (metis map_is_Nil_conv)
  then show ?thesis
    unfolding CreateUserDTO_def by (simp only: zparse_Valid_iff)
qed

lemma satisfies_fields:
  assumes "spec_satisfies em kvs"
  obtains s e where "map_of kvs ''name'' = Some (JStr s)" "2 \<le> length s"
    "map_of kvs ''email'' = Some (JStr e)" "em e"
    "map_of kvs ''age'' = None \<or> (\<exists>x. map_of kvs ''age'' = Some (JNum x) \<and> x \<in> \<int> \<and> 0 \<le> x)"
    "map_of kvs ''roles'' = None \<or>
       (\<exists>xs. map_of kvs ''roles'' = Some (JArr xs) \<and> list_all spec_role_ok xs)"
proof -
  have n: "\<exists>s. map_of kvs ''name'' = Some (JStr s) \<and> 2 \<le> length s"
    using assms unfolding spec_satisfies_def
    by (cases "map_of kvs ''name''" rule: spec_name_violations.cases) simp_all
  have e: "\<exists>e. map_of kvs ''email'' = Some (JStr e) \<and> em e"
    using assms unfolding spec_satisfies_def
    by (cases "map_of kvs ''email''" rule: spec_name_violations.cases) simp_all
  have a: "map_of kvs ''age'' = None \<or>
           (\<exists>x. map_of kvs ''age'' = Some (JNum x) \<and> x \<in> \<int> \<and> 0 \<le> x)"
    using assms unfolding spec_satisfies_def
    by (cases "map_of kvs ''age''" rule: spec_age_violations.cases) simp_all
  have r: "map_of kvs ''roles'' = None \<or>
       (\<exists>xs. map_of kvs ''roles'' = Some (JArr xs) \<and> list_all spec_role_ok xs)"
    using assms unfolding spec_satisfies_def
    by (cases "map_of kvs ''roles''" rule: spec_roles_violations.cases) simp_all
  from n e a r that show thesis by blast
qed

lemma normalized_satisfies:
  assumes "spec_satisfies em kvs"
  shows "spec_satisfies em (spec_normalized kvs)"
    and "spec_normalized (spec_normalized kvs) = spec_normalized kvs"
proof -
  from assms obtain s e where
    n: "map_of kvs ''name'' = Some (JStr s)" "2 \<le> length s" and
    e: "map_of kvs ''email'' = Some (JStr e)" "em e" and
    a: "map_of kvs ''age'' = None \<or>
         (\<exists>x. map_of kvs ''age'' = Some (JNum x) \<and> x \<in> \<int> \<and> 0 \<le> x)" and
    r: "map_of kvs ''roles'' = None \<or>
         (\<exists>xs. map_of kvs ''roles'' = Some (JArr xs) \<and> list_all spec_role_ok xs)"
    by (rule satisfies_fields)
  show "spec_satisfies em (spec_normalized kvs)"
    using n e a r by (auto simp: spec_satisfies_def spec_normalized_def spec_role_ok_def)
  show "spec_normalized (spec_normalized kvs) = spec_normalized kvs"
    using n e a r by (auto simp: spec_normalized_def)
qed

lemma user_Resolved_cases:
  assumes "parseAsync em CreateUserDTO body = Resolved v"
  obtains kvs where "body = Some (JObj kvs)" "spec_satisfies em kvs"
    "v = Some (JObj (spec_normalized kvs))"
proof -
  from assms have z: "zparse em UserSchema [] body = ((Valid, v), [])"
    unfolding CreateUserDTO_def by (simp only: parseAsync_Resolved_iff)
  have "map fst (spec_violations em body) = []"
    using user_issue_paths[of em body, symmetric] unfolding z by simp
  then have nv: "spec_violations em body = []" by simp
  then obtain kvs where b: "body = Some (JObj kvs)"
    by (cases "(em, body)" rule: spec_violations.cases) simp_all
  from nv b have ok: "spec_satisfies em kvs"
    by (simp only: satisfies_iff_no_violation)
  from user_accepts[OF ok] assms b have "v = Some (JObj (spec_normalized kvs))" by simp
  with b ok that show thesis by blast
qed

lemma satisfies_no_field_violation:
  assumes "spec_satisfies em kvs"
  shows "spec_name_violations (map_of kvs ''name'') = []"
    and "spec_email_violations em (map_of kvs ''email'') = []"
    and "spec_age_violations (map_of kvs ''age'') = []"
    and "spec_roles_violations (map_of kvs ''roles'') = []"
proof -
  from assms have "spec_violations em (Some (JObj kvs)) = []"
    by (simp only: satisfies_iff_no_violation)
  then show "spec_name_violations (map_of kvs ''name'') = []"
    and "spec_email_violations em (map_of kvs ''email'') = []"
    and "spec_age_violations (map_of kvs ''age'') = []"
    and "spec_roles_violations (map_of kvs ''roles'') = []"
    by simp_all
qed

lemma satisfies_set_age:
  "spec_satisfies em kvs \<Longrightarrow> x \<in> \<int> \<Longrightarrow> 0 \<le> x \<Longrightarrow> spec_satisfies em ((''age'', JNum x) # kvs)"
  by (simp add: spec_satisfies_def)

lemma satisfies_set_roles:
  "spec_satisfies em kvs \<Longrightarrow> list_all spec_role_ok xs \<Longrightarrow>
   spec_satisfies em ((''roles'', JArr xs) # kvs)"
  by (simp add: spec_satisfies_def)

lemma user_issues_negative_age:
  assumes "spec_satisfies em kvs"
  shows "snd (zparse em UserSchema [] (Some (JObj ((''age'', JNum (- 1)) # kvs)))) =
           [\<lparr> code = too_small,
               extras = [(''minimum'', JNum 0), (''type'', JStr ''number''),
                         (''inclusive'', JBool True), (''exact'', JBool False)],
               path = [Key ''age''], message = ''Age must be a non-negative number.'' \<rparr>]"
proof -
  note v = satisfies_no_field_violation[OF assms]
  have age: "snd (zparse em
      (ZOptional (ZNumber (TypeErrors None (Some ''Age must be a number.''))
         [NumInt ''Age must be an integer.'', NumMin 0 ''Age must be a non-negative number.'']))
      [Key ''age''] (Some (JNum (- 1)))) =
        [\<lparr> code = too_small,
            extras = [(''minimum'', JNum 0), (''type'', JStr ''number''),
                      (''inclusive'', JBool True), (''exact'', JBool False)],
            path = [Key ''age''], message = ''Age must be a non-negative number.'' \<rparr>]"
    by (simp add: checked_def isInteger_Ints)
  show ?thesis
    unfolding UserSchema_def zparse_object4
    by (simp add: name_ok[OF v(1)] email_ok[OF v(2)] roles_ok[OF v(4)] age del: zparse.simps)
qed



lemma user_parse_owner:
  "em ''bo@x.com'' \<Longrightarrow>
   snd (zparse em UserSchema []
     (Some (JObj [(''name'', JStr ''Bo''), (''email'', JStr ''bo@x.com''),
                  (''roles'', JArr [JStr ''owner''])]))) =
     [\<lparr> code = invalid_enum_value,
         extras = [(''received'', JStr ''owner''),
                   (''options'', JArr [JStr ''admin'', JStr ''user''])],
         path = [Key ''roles'', Idx 0],
         message = ''Role must be 'admin' or 'user'.'' \<rparr>]"
  by (simp add: UserSchema_def checked_def schema_message_def)

subsection \<open>The list-users query\<close>

lemma zparse_object3:
  "zparse em (ZObject [(k1, t1), (k2, t2), (k3, t3)]) pth (Some (JObj kvs)) =
     (mergeObjectSync Valid
        [(k1, fst (zparse em t1 (pth @ [Key k1]) (map_of kvs k1))),
         (k2, fst (zparse em t2 (pth @ [Key k2]) (map_of kvs k2))),
         (k3, fst (zparse em t3 (pth @ [Key k3]) (map_of kvs k3)))] [],
      snd (zparse em t1 (pth @ [Key k1]) (map_of kvs k1)) @
      snd (zparse em t2 (pth @ [Key k2]) (map_of kvs k2)) @
      snd (zparse em t3 (pth @ [Key k3]) (map_of kvs k3)))"
  by simp

lemma flag_Valid_iff:
  "fst (fst (zparse em
      (ZEffects (ZDefault (ZBoolean p) (JBool False)) (\<lambda>val. parsedType val = ''boolean'') m)
      pth v)) = Valid \<longleftrightarrow> spec_flag_ok v"
  by (cases v rule: spec_flag_ok.cases) (simp_all add: INVALID_def)

lemma flag_ok:
  "spec_flag_ok v \<Longrightarrow>
   zparse em
     (ZEffects (ZDefault (ZBoolean p) (JBool False)) (\<lambda>val. parsedType val = ''boolean'') m)
     pth v = ((Valid, Some (case v of Some b \<Rightarrow> b | None \<Rightarrow> JBool False)), [])"
  by (cases v rule: spec_flag_ok.cases) simp_all

lemma page_Valid_iff:
  "fst (fst (zparse em (ZDefault (ZNumber p [NumInt m1, NumMin 1 m2]) (JNum 1)) pth v)) = Valid
     \<longleftrightarrow> spec_page_ok v"
  by (cases v rule: spec_page_ok.cases)
     (auto simp: INVALID_def checked_def isInteger_Ints)

lemma page_ok:
  "spec_page_ok v \<Longrightarrow>
   zparse em (ZDefault (ZNumber p [NumInt m1, NumMin 1 m2]) (JNum 1)) pth v =
     ((Valid, Some (case v of Some x \<Rightarrow> x | None \<Rightarrow> JNum 1)), [])"
  by (cases v rule: spec_page_ok.cases) (simp_all add: checked_def isInteger_Ints)

lemma limit_Valid_iff:
  "fst (fst (zparse em
      (ZDefault (ZNumber p [NumInt m1, NumMin 1 m2, NumMax 100 m3]) (JNum 10)) pth v)) = Valid
     \<longleftrightarrow> spec_limit_ok v"
  by (cases v rule: spec_limit_ok.cases)
     (auto simp: INVALID_def checked_def isInteger_Ints)

lemma limit_ok:
  "spec_limit_ok v \<Longrightarrow>
   zparse em (ZDefault (ZNumber p [NumInt m1, NumMin 1 m2, NumMax 100 m3]) (JNum 10)) pth v =
     ((Valid, Some (case v of Some x \<Rightarrow> x | None \<Rightarrow> JNum 10)), [])"
  by (cases v rule: spec_limit_ok.cases) (simp_all add: checked_def isInteger_Ints)

lemma query_Valid_iff:
  "fst (fst (zparse em GetUserQueryDTO [] (Some (JObj kvs)))) = Valid \<longleftrightarrow> spec_query_ok kvs"
  unfolding GetUserQueryDTO_def zparse_object_Valid spec_query_ok_def
  by (simp add: flag_Valid_iff page_Valid_iff limit_Valid_iff del: zparse.simps)

lemma query_result:
  assumes "spec_query_ok kvs"
  shows "zparse em GetUserQueryDTO [] (Some (JObj kvs)) =
           ((Valid, Some (JObj (spec_query_normalized kvs))), [])"
proof -
  from assms have f: "spec_flag_ok (map_of kvs ''includeRoles'')"
    and p: "spec_page_ok (map_of kvs ''page'')"
    and l: "spec_limit_ok (map_of kvs ''limit'')"
    by (simp_all add: spec_query_ok_def)
  show ?thesis
    unfolding GetUserQueryDTO_def zparse_object3
    by (simp add: flag_ok[OF f] page_ok[OF p] limit_ok[OF l] spec_query_normalized_def
          del: zparse.simps)
qed

lemma query_limit_101:
  "snd (zparse em GetUserQueryDTO [] (Some (JObj [(''limit'', JNum 101)]))) =
     [\<lparr> code = too_big,
         extras = [(''maximum'', JNum 100), (''type'', JStr ''number''),
                   (''inclusive'', JBool True), (''exact'', JBool False)],
         path = [Key ''limit''], message = ''Limit cannot exceed 100.'' \<rparr>]"
  by (simp add: GetUserQueryDTO_def checked_def isInteger_Ints)

lemma query_limit_0:
  "snd (zparse em GetUserQueryDTO [] (Some (JObj [(''limit'', JNum 0)]))) =
     [\<lparr> code = too_small,
         extras = [(''minimum'', JNum 1), (''type'', JStr ''number''),
                   (''inclusive'', JBool True), (''exact'', JBool False)],
         path = [Key ''limit''], message = ''Limit must be at least 1.'' \<rparr>]"
  by (simp add: GetUserQueryDTO_def checked_def isInteger_Ints)

subsection \<open>Issues for elements of \<open>roles\<close>, and the documented shape of an issue\<close>

lemma enum_role_issue:
  "\<not> spec_role_ok x \<Longrightarrow>
   \<exists>e. snd (zparse em (ZEnum [''admin'', ''user''] p) pth (Some x)) = [e] \<and>
       path e = pth \<and> extras e \<noteq> []"
  by (cases x) (auto simp: spec_role_ok_def type_issue_def)

lemma roles_items_issue:
  "i < length xs \<Longrightarrow> \<not> spec_role_ok (xs ! i) \<Longrightarrow>
   \<exists>e\<in>set (concat (map snd
         (map (\<lambda>(j, x). zparse em (ZEnum [''admin'', ''user''] p) (pth @ [Idx j]) (Some x))
            (enumerate n xs)))).
     path e = pth @ [Idx (n + i)] \<and> extras e \<noteq> []"
proof (induction xs arbitrary: n i)
  case Nil
  then show ?case by simp
next
  case (Cons x xs)
  show ?case
  proof (cases i)
    case 0
    with Cons.prems have "\<not> spec_role_ok x" by simp
    from enum_role_issue[OF this, of em p "pth @ [Idx n]"]
    obtain e where "snd (zparse em (ZEnum [''admin'', ''user''] p) (pth @ [Idx n]) (Some x)) = [e]"
      "path e = pth @ [Idx n]" "extras e \<noteq> []"
      by blast
    then show ?thesis using 0 by auto
  next
    case (Suc k)
    with Cons.prems have "k < length xs" "\<not> spec_role_ok (xs ! k)" by simp_all
    from Cons.IH[OF this, of "Suc n"]
    obtain e where
      "e \<in> set (concat (map snd
         (map (\<lambda>(j, x). zparse em (ZEnum [''admin'', ''user''] p) (pth @ [Idx j]) (Some x))
            (enumerate (Suc n) xs))))"
      "path e = pth @ [Idx (Suc n + k)]" "extras e \<noteq> []"
      by blast
    then show ?thesis using Suc by auto
  qed
qed

lemma user_roles_issue:
  assumes "map_of kvs ''roles'' = Some (JArr xs)" and "i < length xs"
      and "\<not> spec_role_ok (xs ! i)"
  shows "\<exists>e\<in>set (snd (zparse em UserSchema [] (Some (JObj kvs)))).
           path e = [Key ''roles'', Idx i] \<and> extras e \<noteq> []"
proof -
  from roles_items_issue[OF assms(2,3), of em "ErrorMap ''Role must be 'admin' or 'user'.''"
         "[Key ''roles'']" 0]
  obtain e where e: "e \<in> set (concat (map snd
         (map (\<lambda>(j, x). zparse em
                 (ZEnum [''admin'', ''user''] (ErrorMap ''Role must be 'admin' or 'user'.''))
                 ([Key ''roles''] @ [Idx j]) (Some x))
            (enumerate 0 xs))))"
    and p: "path e = [Key ''roles''] @ [Idx (0 + i)]" "extras e \<noteq> []"
    by blast
  have "snd (zparse em
      (ZDefault (ZArray (ZEnum [''admin'', ''user''] (ErrorMap ''Role must be 'admin' or 'user'.'')))
         (JArr [JStr ''user'']))
      [Key ''roles''] (Some (JArr xs))) =
      concat (map snd
         (map (\<lambda>(j, x). zparse em
                 (ZEnum [''admin'', ''user''] (ErrorMap ''Role must be 'admin' or 'user'.''))
                 ([Key ''roles''] @ [Idx j]) (Some x))
            (enumerate 0 xs)))"
    by (simp del: zparse.simps(4) add: comp_def)
  with e have "e \<in> set (snd (zparse em
      (ZDefault (ZArray (ZEnum [''admin'', ''user''] (ErrorMap ''Role must be 'admin' or 'user'.'')))
         (JArr [JStr ''user'']))
      [Key ''roles''] (Some (JArr xs))))"
    by simp
  then have "e \<in> set (snd (zparse em UserSchema [] (Some (JObj kvs))))"
    unfolding UserSchema_def zparse_object4 assms(1)
    by (simp del: zparse.simps)
  with p show ?thesis by auto
qed

lemma path_not_strings:
  assumes "Idx n \<in> set segs"
  shows "fst (fst (zparse em (ZArray (ZString NoParams [])) pth
                     (Some (JArr (map pseg_json segs))))) \<noteq> Valid"
proof
  assume v: "fst (fst (zparse em (ZArray (ZString NoParams [])) pth
                     (Some (JArr (map pseg_json segs))))) = Valid"
  from assms have "JNum (of_nat n) \<in> set (map pseg_json segs)"
    by (metis image_eqI pseg_json.simps(2) set_map)
  then obtain k where "k < length (map pseg_json segs)"
    and "map pseg_json segs ! k = JNum (of_nat n)"
    by (auto simp only: in_set_conv_nth)
  then have "(k, JNum (of_nat n)) \<in> set (enumerate 0 (map pseg_json segs))"
    by (simp add: in_set_enumerate_eq)
  with v have "fst (fst (zparse em (ZString NoParams []) (pth @ [Idx k])
                  (Some (JNum (of_nat n))))) = Valid"
    unfolding zparse_array_Valid by fastforce
  then show False by (simp add: INVALID_def)
qed

lemma issue_not_documented:
  assumes "Idx n \<in> set (path e)"
  shows "fst (fst (zparse em
           (ZObject [(''code'', ZString NoParams []), (''message'', ZString NoParams []),
                     (''path'', ZArray (ZString NoParams []))])
           pth (Some (issue_json e)))) \<noteq> Valid"
proof -
  have "fst (fst (zparse em (ZArray (ZString NoParams [])) (pth @ [Key ''path''])
           (Some (JArr (map pseg_json (path e)))))) \<noteq> Valid"
    using assms by (rule path_not_strings)
  then show ?thesis
    unfolding issue_json_def zparse_object_Valid
    by (simp del: zparse.simps)
qed

lemma response_not_documented:
  assumes "e \<in> set errors" and "Idx n \<in> set (path e)"
  shows "fst (fst (zparse em ValidationErrorResponse [] (Some (validation_failed errors)))) \<noteq> Valid"
proof
  assume v: "fst (fst (zparse em ValidationErrorResponse [] (Some (validation_failed errors)))) = Valid"
  then have d: "fst (fst (zparse em
       (ZArray (ZObject [(''code'', ZString NoParams []), (''message'', ZString NoParams []),
                         (''path'', ZArray (ZString NoParams []))]))
       [Key ''details''] (Some (JArr (map issue_json errors))))) = Valid"
    unfolding ValidationErrorResponse_def validation_failed_def zparse_object_Valid
    by (simp del: zparse.simps)
  from assms(1) obtain k where "k < length errors" and "errors ! k = e"
    by (auto simp only: in_set_conv_nth)
  then have "(k, issue_json e) \<in> set (enumerate 0 (map issue_json errors))"
    by (simp add: in_set_enumerate_eq)
  with d have "fst (fst (zparse em
       (ZObject [(''code'', ZString NoParams []), (''message'', ZString NoParams []),
                 (''path'', ZArray (ZString NoParams []))])
       ([Key ''details''] @ [Idx k]) (Some (issue_json e)))) = Valid"
    unfolding zparse_array_Valid by fastforce
  with issue_not_documented[OF assms(2)] show False by blast
qed

subsection \<open>Every issue of the user schema is the report of its constraint\<close>

lemma name_summaries:
  "map issue_summary (snd (zparse em
       (ZString (TypeErrors (Some ''Name is required.'') (Some ''Name must be a string.''))
          [StrMin 2 ''Name must be at least 2 characters long.''])
       [Key ''name''] v)) =
   map (\<lambda>c. ([Key ''name''], constraint_code c v, constraint_message [Key ''name''] c v))
     (spec_name_violations v)"
  by (cases v rule: spec_name_violations.cases)
     (simp_all add: checked_def type_issue_def schema_message_def issue_summary_def)

lemma email_summaries:
  "map issue_summary (snd (zparse em
       (ZString (TypeErrors (Some ''Email is required.'') (Some ''Email must be a string.''))
          [StrEmail ''Invalid email format. Please provide a valid email.''])
       [Key ''email''] v)) =
   map (\<lambda>c. ([Key ''email''], constraint_code c v, constraint_message [Key ''email''] c v))
     (spec_email_violations em v)"
  by (cases "(em, v)" rule: spec_email_violations.cases)
     (simp_all add: checked_def type_issue_def schema_message_def issue_summary_def)

lemma age_summaries:
  "map issue_summary (snd (zparse em
       (ZOptional (ZNumber (TypeErrors None (Some ''Age must be a number.''))
          [NumInt ''Age must be an integer.'', NumMin 0 ''Age must be a non-negative number.'']))
       [Key ''age''] v)) =
   map (\<lambda>c. ([Key ''age''], constraint_code c v, constraint_message [Key ''age''] c v))
     (spec_age_violations v)"
  by (cases v rule: spec_age_violations.cases)
     (simp_all add: checked_def type_issue_def schema_message_def issue_summary_def isInteger_Ints)

lemma enum_role_summary:
  "\<not> spec_role_ok x \<Longrightarrow>
   map issue_summary (snd (zparse em
       (ZEnum [''admin'', ''user''] (ErrorMap ''Role must be 'admin' or 'user'.'')) pth (Some x))) =
     [(pth, constraint_code InEnumeration (Some x), ''Role must be 'admin' or 'user'.'')]"
  by (cases x) (auto simp: spec_role_ok_def type_issue_def schema_message_def issue_summary_def)

lemma roles_items_summaries:
  "map issue_summary (concat (map snd
       (map (\<lambda>(i, x). zparse em
               (ZEnum [''admin'', ''user''] (ErrorMap ''Role must be 'admin' or 'user'.''))
               (pth @ [Idx i]) (Some x))
          (enumerate n xs)))) =
   map (\<lambda>(i, x). (pth @ [Idx i], constraint_code InEnumeration (Some x),
                    ''Role must be 'admin' or 'user'.''))
     (filter (\<lambda>(i, x). \<not> spec_role_ok x) (enumerate n xs))"
proof (induction xs arbitrary: n)
  case Nil
  show ?case by simp
next
  case (Cons x xs)
  show ?case
  proof (cases "spec_role_ok x")
    case True
    then show ?thesis
      using Cons[of "Suc n"]
        enum_role[of em "ErrorMap ''Role must be 'admin' or 'user'.''" "pth @ [Idx n]" x]
      by simp
  next
    case False
    then show ?thesis
      using Cons[of "Suc n"] enum_role_summary[of x em "pth @ [Idx n]"] by simp
  qed
qed

lemma json_at_role:
  assumes "map_of kvs ''roles'' = Some (JArr xs)" and "ix \<in> set (enumerate 0 xs)"
  shows "json_at [Key ''roles'', Idx (fst ix)] (Some (JObj kvs)) = Some (snd ix)"
proof -
  from assms(2) have "fst ix < length xs" and "xs ! fst ix = snd ix"
    by (auto simp: in_set_enumerate_eq)
  with assms(1) show ?thesis by simp
qed

lemma roles_summaries:
  "map issue_summary (snd (zparse em
       (ZDefault (ZArray (ZEnum [''admin'', ''user''] (ErrorMap ''Role must be 'admin' or 'user'.'')))
          (JArr [JStr ''user'']))
       [Key ''roles''] (map_of kvs ''roles''))) =
   map (constraint_report (Some (JObj kvs))) (spec_roles_violations (map_of kvs ''roles''))"
proof (cases "map_of kvs ''roles''" rule: spec_roles_violations.cases)
  case 1
  then show ?thesis by simp
next
  case (2 xs)
  have items: "map issue_summary (snd (zparse em
       (ZDefault (ZArray (ZEnum [''admin'', ''user''] (ErrorMap ''Role must be 'admin' or 'user'.'')))
          (JArr [JStr ''user'']))
       [Key ''roles''] (Some (JArr xs)))) =
     map (\<lambda>(i, x). ([Key ''roles''] @ [Idx i], constraint_code InEnumeration (Some x),
                      ''Role must be 'admin' or 'user'.''))
       (filter (\<lambda>(i, x). \<not> spec_role_ok x) (enumerate 0 xs))"
    using roles_items_summaries[of em "[Key ''roles'']" 0 xs]
    by (simp del: zparse.simps(4) add: comp_def)
  have "map (constraint_report (Some (JObj kvs))) (spec_roles_violations (Some (JArr xs))) =
     map (\<lambda>ix. constraint_report (Some (JObj kvs)) ([Key ''roles'', Idx (fst ix)], InEnumeration))
       (filter (\<lambda>(i, x). \<not> spec_role_ok x) (enumerate 0 xs))"
    by (simp add: comp_def case_prod_beta)
  also have "\<dots> =
     map (\<lambda>ix. ([Key ''roles''] @ [Idx (fst ix)], constraint_code InEnumeration (Some (snd ix)),
                 ''Role must be 'admin' or 'user'.''))
       (filter (\<lambda>(i, x). \<not> spec_role_ok x) (enumerate 0 xs))"
  proof (rule map_cong[OF refl])
    fix ix assume "ix \<in> set (filter (\<lambda>(i, x). \<not> spec_role_ok x) (enumerate 0 xs))"
    then have "ix \<in> set (enumerate 0 xs)" by simp
    from json_at_role[OF 2 this]
    show "constraint_report (Some (JObj kvs)) ([Key ''roles'', Idx (fst ix)], InEnumeration) =
          ([Key ''roles''] @ [Idx (fst ix)], constraint_code InEnumeration (Some (snd ix)),
           ''Role must be 'admin' or 'user'.'')"
      by (simp add: constraint_report_def)
  qed
  finally show ?thesis
    unfolding 2 items by (simp add: case_prod_beta)
qed (simp_all add: type_issue_def schema_message_def issue_summary_def constraint_report_def
       default_invalid_type_def)

lemma parsedType_undefined: "parsedType d = ''undefined'' \<longleftrightarrow> d = None"
  by (cases d rule: parsedType.cases) simp_all

lemma user_issue_summaries:
  "map issue_summary (snd (zparse em UserSchema [] body)) =
     map (constraint_report body) (spec_violations em body)"
proof (cases "\<exists>kvs. body = Some (JObj kvs)")
  case True
  then obtain kvs where b: "body = Some (JObj kvs)" by blast
  have r: "map issue_summary (snd (zparse em
       (ZDefault (ZArray (ZEnum [''admin'', ''user''] (ErrorMap ''Role must be 'admin' or 'user'.'')))
          (JArr [JStr ''user'']))
       [Key ''roles''] (map_of kvs ''roles''))) =
     map (constraint_report (Some (JObj kvs))) (spec_roles_violations (map_of kvs ''roles''))"
    by (rule roles_summaries)
  show ?thesis
    unfolding b UserSchema_def zparse_object4
    by (simp add: name_summaries email_summaries age_summaries r comp_def constraint_report_def
          del: zparse.simps spec_roles_violations.simps)
next
  case False
  then have z: "zparse em UserSchema [] body = (INVALID, [type_issue NoParams [] ''object'' body])"
    unfolding UserSchema_def by (intro zparse_not_object) auto
  have v: "spec_violations em body = [([], IsObject)]"
    using False by (cases "(em, body)" rule: spec_violations.cases) auto
  show ?thesis
    unfolding z v
    by (simp add: type_issue_def schema_message_def issue_summary_def constraint_report_def
          default_invalid_type_def parsedType_undefined)
qed

lemma pseg_json_case: "pseg_json = (\<lambda>s. case s of Key k \<Rightarrow> JStr k | Idx i \<Rightarrow> JNum (of_nat i))"
  by (rule ext) (simp split: pseg.splits)

lemma entries_of_reports:
  assumes "map issue_summary errors = map (constraint_report body) vs"
  shows "map entry_members (map issue_json errors) = map (constraint_entry body) vs"
proof -
  let ?g = "\<lambda>t :: pseg list \<times> issue_code \<times> string.
              (Some (JArr (map pseg_json (fst t))), Some (JStr (code_name (fst (snd t)))),
               Some (JStr (snd (snd t))))"
  have a: "entry_members (issue_json i) = ?g (issue_summary i)" for i
    by (simp add: entry_members_def issue_json_def issue_summary_def)
  have b: "constraint_entry body pc = ?g (constraint_report body pc)" for pc
    by (simp add: constraint_entry_def constraint_report_def pseg_json_case)
  have "map entry_members (map issue_json errors) = map ?g (map issue_summary errors)"
    by (simp add: a)
  also have "\<dots> = map ?g (map (constraint_report body) vs)"
    by (simp only: assms)
  also have "\<dots> = map (constraint_entry body) vs"
    by (simp add: b)
  finally show ?thesis .
qed

lemma user_rejects_body:
  assumes "spec_violations em body \<noteq> []"
  shows "post_users em body =
           Response 400 (Some (JObj [(''error'', JStr ''Validation failed''),
             (''details'', JArr (map issue_json (snd (zparse em UserSchema [] body))))]))"
proof -
  from assms have "parseAsync em CreateUserDTO body = ZodError (snd (zparse em CreateUserDTO [] body))"
    by (rule user_rejects)
  then show ?thesis
    by (simp add: post_users_ZodError validation_failed_def CreateUserDTO_def)
qed





section \<open>The claims\<close>

text \<open>
  C1.  A payload of \<^verbatim>\<open>POST /users\<close> that satisfies every field constraint passes the
  middleware, which hands the handler the normalized payload (the declared fields as
  sent, and \<open>roles\<close> set to its default where it was absent), and the handler answers
  201 with that payload.  In particular the body
  \<^verbatim>\<open>{"name":"Al","email":"al@example.com"}\<close> is answered with 201 and
  \<^verbatim>\<open>{"name":"Al","email":"al@example.com","roles":["user"]}\<close>, for every email pattern
  that accepts \<^verbatim>\<open>al@example.com\<close>.
\<close>

theorem post_users_accepts_valid_payload:
  "(spec_satisfies em kvs \<longrightarrow>
      validateRequest (parseAsync em CreateUserDTO) (Some (JObj kvs)) =
        Next (Some (JObj (spec_normalized kvs))) \<and>
      post_users em (Some (JObj kvs)) = Response 201 (Some (JObj (spec_normalized kvs)))) \<and>
   (em ''al@example.com'' \<longrightarrow>
      post_users em (Some (JObj [(''name'', JStr ''Al''), (''email'', JStr ''al@example.com'')])) =
        Response 201 (Some (JObj [(''name'', JStr ''Al''), (''email'', JStr ''al@example.com''),
                                  (''roles'', JArr [JStr ''user''])])))"
proof (intro conjI impI)
  assume ok: "spec_satisfies em kvs"
  from post_users_Resolved[OF user_accepts[OF ok]]
  show "validateRequest (parseAsync em CreateUserDTO) (Some (JObj kvs)) =
          Next (Some (JObj (spec_normalized kvs)))"
   and "post_users em (Some (JObj kvs)) = Response 201 (Some (JObj (spec_normalized kvs)))"
    by simp_all
next
  let ?al = "[(''name'', JStr ''Al''), (''email'', JStr ''al@example.com'')]"
  assume "em ''al@example.com''"
  then have ok: "spec_satisfies em ?al" by (simp add: spec_satisfies_def)
  have "spec_normalized ?al =
          [(''name'', JStr ''Al''), (''email'', JStr ''al@example.com''),
           (''roles'', JArr [JStr ''user''])]"
    by (simp add: spec_normalized_def)
  with post_users_Resolved[OF user_accepts[OF ok]]
  show "post_users em (Some (JObj ?al)) =
          Response 201 (Some (JObj [(''name'', JStr ''Al''), (''email'', JStr ''al@example.com''),
                                    (''roles'', JArr [JStr ''user''])]))"
    by simp
qed

theorem post_users_accepts_valid_payload_witness:
  "spec_satisfies emailRegex [(''name'', JStr ''Al''), (''email'', JStr ''al@example.com'')] \<and>
   emailRegex ''al@example.com'' \<and>
   validateRequest (parseAsync emailRegex CreateUserDTO)
       (Some (JObj [(''name'', JStr ''Al''), (''email'', JStr ''al@example.com'')])) =
     Next (Some (JObj [(''name'', JStr ''Al''), (''email'', JStr ''al@example.com''),
                       (''roles'', JArr [JStr ''user''])])) \<and>
   post_users emailRegex (Some (JObj [(''name'', JStr ''Al''), (''email'', JStr ''al@example.com'')])) =
     Response 201 (Some (JObj [(''name'', JStr ''Al''), (''email'', JStr ''al@example.com''),
                               (''roles'', JArr [JStr ''user''])]))"
proof -
  let ?al = "[(''name'', JStr ''Al''), (''email'', JStr ''al@example.com'')]"
  have ok: "spec_satisfies emailRegex ?al"
    by (simp add: spec_satisfies_def emailRegex_al)
  have norm: "spec_normalized ?al =
          [(''name'', JStr ''Al''), (''email'', JStr ''al@example.com''),
           (''roles'', JArr [JStr ''user''])]"
    by (simp add: spec_normalized_def)
  show ?thesis
    using post_users_accepts_valid_payload[of emailRegex ?al] ok emailRegex_al
    unfolding norm by blast
qed

text \<open>
  C2.  When the schema does not accept the payload, the parser has reported at least one
  issue, and the middleware does not call \<^verbatim>\<open>next\<close>: it sends status 400 with the body
  \<^verbatim>\<open>{error: "Validation failed", details: [...]}\<close>, the issues in the order they were
  reported, so the handler of \<^verbatim>\<open>POST /users\<close> does not run and the route answers 400.
  Every entry of \<open>details\<close> has a \<open>code\<close>, a \<open>message\<close> and a \<open>path\<close>.
\<close>

theorem validation_failure_answers_400:
  "(fst (fst (zparse em schema [] body)) \<noteq> Valid \<longrightarrow>
      snd (zparse em schema [] body) \<noteq> [] \<and>
      validateRequest (parseAsync em schema) body =
        Respond 400 (JObj [(''error'', JStr ''Validation failed''),
                           (''details'', JArr (map issue_json (snd (zparse em schema [] body))))])) \<and>
   (fst (fst (zparse em CreateUserDTO [] body)) \<noteq> Valid \<longrightarrow>
      post_users em body =
        Response 400 (Some (JObj [(''error'', JStr ''Validation failed''),
          (''details'', JArr (map issue_json (snd (zparse em CreateUserDTO [] body))))]))) \<and>
   json_member ''code'' (issue_json i) = Some (JStr (code_name (code i))) \<and>
   json_member ''message'' (issue_json i) = Some (JStr (message i)) \<and>
   json_member ''path'' (issue_json i) = Some (JArr (map pseg_json (path i)))"
proof (intro conjI impI)
  assume a: "fst (fst (zparse em schema [] body)) \<noteq> Valid"
  show "snd (zparse em schema [] body) \<noteq> []"
    using a by (rule parseAsync_invalid(2))
  show "validateRequest (parseAsync em schema) body =
        Respond 400 (JObj [(''error'', JStr ''Validation failed''),
                           (''details'', JArr (map issue_json (snd (zparse em schema [] body))))])"
    by (simp add: validateRequest_def parseAsync_invalid(1)[OF a] validation_failed_def)
next
  assume a: "fst (fst (zparse em CreateUserDTO [] body)) \<noteq> Valid"
  show "post_users em body =
        Response 400 (Some (JObj [(''error'', JStr ''Validation failed''),
          (''details'', JArr (map issue_json (snd (zparse em CreateUserDTO [] body))))]))"
    by (simp add: post_users_def validateRequest_def parseAsync_invalid(1)[OF a]
          validation_failed_def)
qed (simp_all add: issue_json_members)

theorem validation_failure_answers_400_witness:
  "fst (fst (zparse emailRegex CreateUserDTO []
          (Some (JObj [(''name'', JStr ''A''), (''email'', JStr ''bad'')])))) \<noteq> Valid \<and>
   post_users emailRegex (Some (JObj [(''name'', JStr ''A''), (''email'', JStr ''bad'')])) =
     Response 400 (Some (JObj [(''error'', JStr ''Validation failed''),
       (''details'', JArr
          [JObj [(''code'', JStr ''too_small''),
                 (''message'', JStr ''Name must be at least 2 characters long.''),
                 (''path'', JArr [JStr ''name'']),
                 (''minimum'', JNum 2), (''type'', JStr ''string''),
                 (''inclusive'', JBool True), (''exact'', JBool False)],
           JObj [(''code'', JStr ''invalid_string''),
                 (''message'', JStr ''Invalid email format. Please provide a valid email.''),
                 (''path'', JArr [JStr ''email'']),
                 (''validation'', JStr ''email'')]])]))"
proof -
  let ?b = "Some (JObj [(''name'', JStr ''A''), (''email'', JStr ''bad'')])"
  have v: "spec_violations emailRegex ?b \<noteq> []" by simp
  have nv: "fst (fst (zparse emailRegex CreateUserDTO [] ?b)) \<noteq> Valid"
    using v by (simp only: user_not_valid_iff not_False_eq_True)
  have iss: "snd (zparse emailRegex CreateUserDTO [] ?b) =
     [\<lparr> code = too_small,
         extras = [(''minimum'', JNum 2), (''type'', JStr ''string''),
                   (''inclusive'', JBool True), (''exact'', JBool False)],
         path = [Key ''name''], message = ''Name must be at least 2 characters long.'' \<rparr>,
      \<lparr> code = invalid_string, extras = [(''validation'', JStr ''email'')],
         path = [Key ''email''],
         message = ''Invalid email format. Please provide a valid email.'' \<rparr>]"
    unfolding CreateUserDTO_def by (rule user_parse_A_bad) (rule emailRegex_bad)
  have "post_users emailRegex ?b =
        Response 400 (Some (JObj [(''error'', JStr ''Validation failed''),
          (''details'', JArr (map issue_json (snd (zparse emailRegex CreateUserDTO [] ?b))))]))"
    using validation_failure_answers_400[of emailRegex CreateUserDTO ?b] nv by blast
  then show ?thesis
    unfolding iss using nv by (simp add: issue_json_def)
qed

text \<open>
  C3.  For every payload the issues of the user schema are, entry by entry, the
  constraints the payload violates: as many entries as violated constraints, fields in
  declaration order (name, email, age, roles) and the constraints of one field in their
  order, each entry with the path, the code and the message of its own constraint.
  When there is a violation the route answers 400 with the body
  \<^verbatim>\<open>{error: "Validation failed", details: [...]}\<close> whose \<open>details\<close> has one entry for each
  violated constraint, in that order, with that \<open>path\<close>, \<open>code\<close> and \<open>message\<close>.
  In particular the body \<^verbatim>\<open>{"name":"A","email":"bad"}\<close> is answered with 400 and
  exactly two entries, the name that is too short and then the invalid email, for every
  email pattern that rejects \<^verbatim>\<open>bad\<close>.
\<close>

theorem details_one_entry_per_violated_constraint:
  "map issue_summary (snd (zparse em CreateUserDTO [] body)) =
     map (constraint_report body) (spec_violations em body) \<and>
   map path (snd (zparse em CreateUserDTO [] body)) = map fst (spec_violations em body) \<and>
   length (snd (zparse em CreateUserDTO [] body)) = length (spec_violations em body) \<and>
   (spec_violations em body \<noteq> [] \<longrightarrow>
      (\<exists>ds. post_users em body =
              Response 400 (Some (JObj [(''error'', JStr ''Validation failed''),
                                        (''details'', JArr ds)])) \<and>
            length ds = length (spec_violations em body) \<and>
            map entry_members ds = map (constraint_entry body) (spec_violations em body))) \<and>
   (\<not> em ''bad'' \<longrightarrow>
      post_users em (Some (JObj [(''name'', JStr ''A''), (''email'', JStr ''bad'')])) =
        Response 400 (Some (JObj [(''error'', JStr ''Validation failed''),
          (''details'', JArr
             [JObj [(''code'', JStr ''too_small''),
                    (''message'', JStr ''Name must be at least 2 characters long.''),
                    (''path'', JArr [JStr ''name'']),
                    (''minimum'', JNum 2), (''type'', JStr ''string''),
                    (''inclusive'', JBool True), (''exact'', JBool False)],
              JObj [(''code'', JStr ''invalid_string''),
                    (''message'', JStr ''Invalid email format. Please provide a valid email.''),
                    (''path'', JArr [JStr ''email'']),
                    (''validation'', JStr ''email'')]])])))"
proof (intro conjI impI)
  show s: "map issue_summary (snd (zparse em CreateUserDTO [] body)) =
        map (constraint_report body) (spec_violations em body)"
    unfolding CreateUserDTO_def by (rule user_issue_summaries)
  show "map path (snd (zparse em CreateUserDTO [] body)) = map fst (spec_violations em body)"
    unfolding CreateUserDTO_def by (rule user_issue_paths)
  show "length (snd (zparse em CreateUserDTO [] body)) = length (spec_violations em body)"
    using arg_cong[OF s, of length] by simp
next
  assume v: "spec_violations em body \<noteq> []"
  let ?ds = "map issue_json (snd (zparse em UserSchema [] body))"
  have "post_users em body =
          Response 400 (Some (JObj [(''error'', JStr ''Validation failed''),
                                    (''details'', JArr ?ds)]))"
    using v by (rule user_rejects_body)
  moreover have e: "map entry_members ?ds = map (constraint_entry body) (spec_violations em body)"
    by (rule entries_of_reports) (rule user_issue_summaries)
  moreover have "length ?ds = length (spec_violations em body)"
    using arg_cong[OF e, of length] by simp
  ultimately show "\<exists>ds. post_users em body =
              Response 400 (Some (JObj [(''error'', JStr ''Validation failed''),
                                        (''details'', JArr ds)])) \<and>
            length ds = length (spec_violations em body) \<and>
            map entry_members ds = map (constraint_entry body) (spec_violations em body)"
    by blast
next
  let ?b = "Some (JObj [(''name'', JStr ''A''), (''email'', JStr ''bad'')])"
  assume nb: "\<not> em ''bad''"
  have "spec_violations em ?b \<noteq> []" by simp
  from user_rejects_body[OF this]
  show "post_users em ?b =
        Response 400 (Some (JObj [(''error'', JStr ''Validation failed''),
          (''details'', JArr
             [JObj [(''code'', JStr ''too_small''),
                    (''message'', JStr ''Name must be at least 2 characters long.''),
                    (''path'', JArr [JStr ''name'']),
                    (''minimum'', JNum 2), (''type'', JStr ''string''),
                    (''inclusive'', JBool True), (''exact'', JBool False)],
              JObj [(''code'', JStr ''invalid_string''),
                    (''message'', JStr ''Invalid email format. Please provide a valid email.''),
                    (''path'', JArr [JStr ''email'']),
                    (''validation'', JStr ''email'')]])]))"
    unfolding user_parse_A_bad[of em, OF nb] by (simp add: issue_json_def)
qed

theorem details_one_entry_per_violated_constraint_witness:
  "spec_violations emailRegex
     (Some (JObj [(''name'', JStr ''A''), (''email'', JStr ''bad''), (''age'', JNum (- 3 / 2)),
                  (''roles'', JArr [JStr ''admin'', JStr ''owner'', JNum 5])])) =
     [([Key ''name''], MinLength 2), ([Key ''email''], EmailFormat),
      ([Key ''age''], IsInteger), ([Key ''age''], AtLeast 0),
      ([Key ''roles'', Idx 1], InEnumeration), ([Key ''roles'', Idx 2], InEnumeration)] \<and>
   map issue_summary (snd (zparse emailRegex CreateUserDTO []
     (Some (JObj [(''name'', JStr ''A''), (''email'', JStr ''bad''), (''age'', JNum (- 3 / 2)),
                  (''roles'', JArr [JStr ''admin'', JStr ''owner'', JNum 5])])))) =
     [([Key ''name''], too_small, ''Name must be at least 2 characters long.''),
      ([Key ''email''], invalid_string, ''Invalid email format. Please provide a valid email.''),
      ([Key ''age''], invalid_type, ''Age must be an integer.''),
      ([Key ''age''], too_small, ''Age must be a non-negative number.''),
      ([Key ''roles'', Idx 1], invalid_enum_value, ''Role must be 'admin' or 'user'.''),
      ([Key ''roles'', Idx 2], invalid_type, ''Role must be 'admin' or 'user'.'')] \<and>
   post_users emailRegex
     (Some (JObj [(''name'', JStr ''A''), (''email'', JStr ''bad''), (''age'', JNum (- 3 / 2)),
                  (''roles'', JArr [JStr ''admin'', JStr ''owner'', JNum 5])])) =
     Response 400 (Some (JObj [(''error'', JStr ''Validation failed''),
       (''details'', JArr
          [JObj [(''code'', JStr ''too_small''),
                 (''message'', JStr ''Name must be at least 2 characters long.''),
                 (''path'', JArr [JStr ''name'']),
                 (''minimum'', JNum 2), (''type'', JStr ''string''),
                 (''inclusive'', JBool True), (''exact'', JBool False)],
           JObj [(''code'', JStr ''invalid_string''),
                 (''message'', JStr ''Invalid email format. Please provide a valid email.''),
                 (''path'', JArr [JStr ''email'']),
                 (''validation'', JStr ''email'')],
           JObj [(''code'', JStr ''invalid_type''),
                 (''message'', JStr ''Age must be an integer.''),
                 (''path'', JArr [JStr ''age'']),
                 (''expected'', JStr ''integer''), (''received'', JStr ''float'')],
           JObj [(''code'', JStr ''too_small''),
                 (''message'', JStr ''Age must be a non-negative number.''),
                 (''path'', JArr [JStr ''age'']),
                 (''minimum'', JNum 0), (''type'', JStr ''number''),
                 (''inclusive'', JBool True), (''exact'', JBool False)],
           JObj [(''code'', JStr ''invalid_enum_value''),
                 (''message'', JStr ''Role must be 'admin' or 'user'.''),
                 (''path'', JArr [JStr ''roles'', JNum 1]),
                 (''received'', JStr ''owner''),
                 (''options'', JArr [JStr ''admin'', JStr ''user''])],
           JObj [(''code'', JStr ''invalid_type''),
                 (''message'', JStr ''Role must be 'admin' or 'user'.''),
                 (''path'', JArr [JStr ''roles'', JNum 2]),
                 (''expected'', JStr (quoted ''admin'' @ '' | '' @ quoted ''user'')),
                 (''received'', JStr ''number'')]])])) \<and>
   \<not> emailRegex ''bad'' \<and>
   post_users emailRegex (Some (JObj [(''name'', JStr ''A''), (''email'', JStr ''bad'')])) =
     Response 400 (Some (JObj [(''error'', JStr ''Validation failed''),
       (''details'', JArr
          [JObj [(''code'', JStr ''too_small''),
                 (''message'', JStr ''Name must be at least 2 characters long.''),
                 (''path'', JArr [JStr ''name'']),
                 (''minimum'', JNum 2), (''type'', JStr ''string''),
                 (''inclusive'', JBool True), (''exact'', JBool False)],
           JObj [(''code'', JStr ''invalid_string''),
                 (''message'', JStr ''Invalid email format. Please provide a valid email.''),
                 (''path'', JArr [JStr ''email'']),
                 (''validation'', JStr ''email'')]])]))"
proof -
  let ?b = "Some (JObj [(''name'', JStr ''A''), (''email'', JStr ''bad''), (''age'', JNum (- 3 / 2)),
                  (''roles'', JArr [JStr ''admin'', JStr ''owner'', JNum 5])])"
  have half: "(- 3 / 2 :: rat) \<notin> \<int>"
  proof
    assume "(- 3 / 2 :: rat) \<in> \<int>"
    then obtain z :: int where "(- 3 / 2 :: rat) = of_int z" by (auto simp: Ints_def)
    then have "of_int (2 * z) = (of_int (- 3) :: rat)" by simp
    then have "2 * z = - 3" by (simp only: of_int_eq_iff)
    then show False by presburger
  qed
  have v: "spec_violations emailRegex ?b =
     [([Key ''name''], MinLength 2), ([Key ''email''], EmailFormat),
      ([Key ''age''], IsInteger), ([Key ''age''], AtLeast 0),
      ([Key ''roles'', Idx 1], InEnumeration), ([Key ''roles'', Idx 2], InEnumeration)]"
    by (simp add: emailRegex_bad half spec_role_ok_def)
  have r: "map (constraint_report ?b)
     [([Key ''name''], MinLength 2), ([Key ''email''], EmailFormat),
      ([Key ''age''], IsInteger), ([Key ''age''], AtLeast 0),
      ([Key ''roles'', Idx 1], InEnumeration), ([Key ''roles'', Idx 2], InEnumeration)] =
     [([Key ''name''], too_small, ''Name must be at least 2 characters long.''),
      ([Key ''email''], invalid_string, ''Invalid email format. Please provide a valid email.''),
      ([Key ''age''], invalid_type, ''Age must be an integer.''),
      ([Key ''age''], too_small, ''Age must be a non-negative number.''),
      ([Key ''roles'', Idx 1], invalid_enum_value, ''Role must be 'admin' or 'user'.''),
      ([Key ''roles'', Idx 2], invalid_type, ''Role must be 'admin' or 'user'.'')]"
    by (simp add: constraint_report_def)
  have iss: "snd (zparse emailRegex UserSchema [] ?b) =
     [\<lparr> code = too_small,
         extras = [(''minimum'', JNum 2), (''type'', JStr ''string''),
                   (''inclusive'', JBool True), (''exact'', JBool False)],
         path = [Key ''name''], message = ''Name must be at least 2 characters long.'' \<rparr>,
      \<lparr> code = invalid_string, extras = [(''validation'', JStr ''email'')],
         path = [Key ''email''],
         message = ''Invalid email format. Please provide a valid email.'' \<rparr>,
      \<lparr> code = invalid_type,
         extras = [(''expected'', JStr ''integer''), (''received'', JStr ''float'')],
         path = [Key ''age''], message = ''Age must be an integer.'' \<rparr>,
      \<lparr> code = too_small,
         extras = [(''minimum'', JNum 0), (''type'', JStr ''number''),
                   (''inclusive'', JBool True), (''exact'', JBool False)],
         path = [Key ''age''], message = ''Age must be a non-negative number.'' \<rparr>,
      \<lparr> code = invalid_enum_value,
         extras = [(''received'', JStr ''owner''),
                   (''options'', JArr [JStr ''admin'', JStr ''user''])],
         path = [Key ''roles'', Idx 1], message = ''Role must be 'admin' or 'user'.'' \<rparr>,
      \<lparr> code = invalid_type,
         extras = [(''expected'', JStr (quoted ''admin'' @ '' | '' @ quoted ''user'')),
                   (''received'', JStr ''number'')],
         path = [Key ''roles'', Idx 2], message = ''Role must be 'admin' or 'user'.'' \<rparr>]"
    by (simp add: UserSchema_def checked_def schema_message_def type_issue_def INVALID_def
          isInteger_Ints half emailRegex_bad)
  have ne: "spec_violations emailRegex ?b \<noteq> []" unfolding v by simp
  have resp: "post_users emailRegex ?b =
     Response 400 (Some (JObj [(''error'', JStr ''Validation failed''),
       (''details'', JArr (map issue_json (snd (zparse emailRegex UserSchema [] ?b))))]))"
    using ne by (rule user_rejects_body)
  note t = details_one_entry_per_violated_constraint[of emailRegex ?b, unfolded v r]
  note t2 = details_one_entry_per_violated_constraint
            [of emailRegex "Some (JObj [(''name'', JStr ''A''), (''email'', JStr ''bad'')])"]
  show ?thesis
    using t t2 emailRegex_bad resp[unfolded iss] unfolding v
    by (simp add: issue_json_def)
qed

text \<open>
  C4.  The boundaries of the user schema.  Setting \<open>age\<close> to 0 in a payload that
  satisfies the constraints leaves it accepted, with \<open>age\<close> 0 in the response.
  A payload with \<open>age\<close> -1 is rejected with 400 whatever its other fields, with an entry
  for \<open>age\<close>; when the other fields are fine that entry is the only one.  A valid
  payload without \<open>roles\<close> is answered with \<open>roles\<close> set to \<^verbatim>\<open>["user"]\<close>, and one
  with \<open>roles\<close> set to the empty sequence with \<open>roles\<close> left empty.
\<close>

theorem user_schema_boundaries:
  "(spec_satisfies em kvs \<longrightarrow>
      post_users em (Some (JObj ((''age'', JNum 0) # kvs))) =
        Response 201 (Some (JObj (spec_normalized ((''age'', JNum 0) # kvs)))) \<and>
      json_member ''age'' (JObj (spec_normalized ((''age'', JNum 0) # kvs))) = Some (JNum 0)) \<and>
   post_users em (Some (JObj ((''age'', JNum (- 1)) # kvs))) =
     Response 400 (Some (validation_failed
       (snd (zparse em CreateUserDTO [] (Some (JObj ((''age'', JNum (- 1)) # kvs))))))) \<and>
   [Key ''age''] \<in> set (map path
       (snd (zparse em CreateUserDTO [] (Some (JObj ((''age'', JNum (- 1)) # kvs)))))) \<and>
   (spec_satisfies em kvs \<longrightarrow>
      snd (zparse em CreateUserDTO [] (Some (JObj ((''age'', JNum (- 1)) # kvs)))) =
        [\<lparr> code = too_small,
            extras = [(''minimum'', JNum 0), (''type'', JStr ''number''),
                      (''inclusive'', JBool True), (''exact'', JBool False)],
            path = [Key ''age''], message = ''Age must be a non-negative number.'' \<rparr>]) \<and>
   (spec_satisfies em kvs \<and> map_of kvs ''roles'' = None \<longrightarrow>
      post_users em (Some (JObj kvs)) = Response 201 (Some (JObj (spec_normalized kvs))) \<and>
      json_member ''roles'' (JObj (spec_normalized kvs)) = Some (JArr [JStr ''user''])) \<and>
   (spec_satisfies em kvs \<longrightarrow>
      post_users em (Some (JObj ((''roles'', JArr []) # kvs))) =
        Response 201 (Some (JObj (spec_normalized ((''roles'', JArr []) # kvs)))) \<and>
      json_member ''roles'' (JObj (spec_normalized ((''roles'', JArr []) # kvs))) =
        Some (JArr []))"
proof (intro conjI impI)
  assume ok: "spec_satisfies em kvs"
  have "spec_satisfies em ((''age'', JNum 0) # kvs)"
    using ok by (rule satisfies_set_age) simp_all
  from post_users_Resolved[OF user_accepts[OF this]]
  show "post_users em (Some (JObj ((''age'', JNum 0) # kvs))) =
        Response 201 (Some (JObj (spec_normalized ((''age'', JNum 0) # kvs))))"
    by simp
  show "json_member ''age'' (JObj (spec_normalized ((''age'', JNum 0) # kvs))) = Some (JNum 0)"
    by (simp add: spec_normalized_def split: option.splits)
next
  let ?b = "Some (JObj ((''age'', JNum (- 1)) # kvs))"
  have v: "([Key ''age''], AtLeast 0) \<in> set (spec_violations em ?b)" by simp
  then have "spec_violations em ?b \<noteq> []" by (metis empty_iff empty_set)
  then have "parseAsync em CreateUserDTO ?b = ZodError (snd (zparse em CreateUserDTO [] ?b))"
    by (rule user_rejects)
  then show "post_users em ?b =
     Response 400 (Some (validation_failed (snd (zparse em CreateUserDTO [] ?b))))"
    by (simp add: post_users_ZodError)
  have "[Key ''age''] \<in> set (map fst (spec_violations em ?b))"
    using v by (metis fst_conv image_eqI set_map)
  then show "[Key ''age''] \<in> set (map path (snd (zparse em CreateUserDTO [] ?b)))"
    unfolding CreateUserDTO_def by (simp only: user_issue_paths)
next
  assume ok: "spec_satisfies em kvs"
  then show "snd (zparse em CreateUserDTO [] (Some (JObj ((''age'', JNum (- 1)) # kvs)))) =
        [\<lparr> code = too_small,
            extras = [(''minimum'', JNum 0), (''type'', JStr ''number''),
                      (''inclusive'', JBool True), (''exact'', JBool False)],
            path = [Key ''age''], message = ''Age must be a non-negative number.'' \<rparr>]"
    unfolding CreateUserDTO_def by (rule user_issues_negative_age)
next
  assume a: "spec_satisfies em kvs \<and> map_of kvs ''roles'' = None"
  then have ok: "spec_satisfies em kvs" and r: "map_of kvs ''roles'' = None" by simp_all
  from post_users_Resolved[OF user_accepts[OF ok]]
  show "post_users em (Some (JObj kvs)) = Response 201 (Some (JObj (spec_normalized kvs)))"
    by simp
  show "json_member ''roles'' (JObj (spec_normalized kvs)) = Some (JArr [JStr ''user''])"
    using r by (simp add: spec_normalized_def split: option.splits)
next
  assume ok: "spec_satisfies em kvs"
  have "spec_satisfies em ((''roles'', JArr []) # kvs)"
    using ok by (rule satisfies_set_roles) simp
  from post_users_Resolved[OF user_accepts[OF this]]
  show "post_users em (Some (JObj ((''roles'', JArr []) # kvs))) =
        Response 201 (Some (JObj (spec_normalized ((''roles'', JArr []) # kvs))))"
    by simp
  show "json_member ''roles'' (JObj (spec_normalized ((''roles'', JArr []) # kvs))) =
        Some (JArr [])"
    by (simp add: spec_normalized_def split: option.splits)
qed

theorem user_schema_boundaries_witness:
  "spec_satisfies emailRegex [(''name'', JStr ''Al''), (''email'', JStr ''al@example.com'')] \<and>
   map_of [(''name'', JStr ''Al''), (''email'', JStr ''al@example.com'')] ''roles'' = None \<and>
   post_users emailRegex
     (Some (JObj [(''age'', JNum 0), (''name'', JStr ''Al''), (''email'', JStr ''al@example.com'')])) =
     Response 201 (Some (JObj [(''name'', JStr ''Al''), (''email'', JStr ''al@example.com''),
                               (''age'', JNum 0), (''roles'', JArr [JStr ''user''])])) \<and>
   post_users emailRegex
     (Some (JObj [(''age'', JNum (- 1)), (''name'', JStr ''Al''),
                  (''email'', JStr ''al@example.com'')])) =
     Response 400 (Some (validation_failed
        [\<lparr> code = too_small,
            extras = [(''minimum'', JNum 0), (''type'', JStr ''number''),
                      (''inclusive'', JBool True), (''exact'', JBool False)],
            path = [Key ''age''], message = ''Age must be a non-negative number.'' \<rparr>])) \<and>
   post_users emailRegex
     (Some (JObj [(''name'', JStr ''Al''), (''email'', JStr ''al@example.com'')])) =
     Response 201 (Some (JObj [(''name'', JStr ''Al''), (''email'', JStr ''al@example.com''),
                               (''roles'', JArr [JStr ''user''])])) \<and>
   post_users emailRegex
     (Some (JObj [(''roles'', JArr []), (''name'', JStr ''Al''),
                  (''email'', JStr ''al@example.com'')])) =
     Response 201 (Some (JObj [(''name'', JStr ''Al''), (''email'', JStr ''al@example.com''),
                               (''roles'', JArr [])]))"
proof -
  let ?al = "[(''name'', JStr ''Al''), (''email'', JStr ''al@example.com'')]"
  have ok: "spec_satisfies emailRegex ?al"
    by (simp add: spec_satisfies_def emailRegex_al)
  have r: "map_of ?al ''roles'' = None" by simp
  have n0: "spec_normalized ((''age'', JNum 0) # ?al) =
     [(''name'', JStr ''Al''), (''email'', JStr ''al@example.com''),
      (''age'', JNum 0), (''roles'', JArr [JStr ''user''])]"
    by (simp add: spec_normalized_def)
  have n1: "spec_normalized ?al =
     [(''name'', JStr ''Al''), (''email'', JStr ''al@example.com''),
      (''roles'', JArr [JStr ''user''])]"
    by (simp add: spec_normalized_def)
  have n2: "spec_normalized ((''roles'', JArr []) # ?al) =
     [(''name'', JStr ''Al''), (''email'', JStr ''al@example.com''), (''roles'', JArr [])]"
    by (simp add: spec_normalized_def)
  note b = user_schema_boundaries[of emailRegex ?al, unfolded n0 n1 n2]
  from b ok r show ?thesis by (metis (no_types, lifting))
qed

text \<open>
  C5.  Validation is idempotent on its own output: when the user schema accepts a
  payload, validating the normalized value it returns succeeds and returns that same
  value, in the parser and in the middleware alike.
\<close>

theorem validation_idempotent_on_output:
  "(parseAsync em CreateUserDTO body = Resolved v \<longrightarrow>
      parseAsync em CreateUserDTO v = Resolved v) \<and>
   (validateRequest (parseAsync em CreateUserDTO) body = Next v \<longrightarrow>
      validateRequest (parseAsync em CreateUserDTO) v = Next v)"
proof -
  have main: "parseAsync em CreateUserDTO v = Resolved v"
    if "parseAsync em CreateUserDTO body = Resolved v" for v
  proof -
    from that obtain kvs where ok: "spec_satisfies em kvs"
      and v: "v = Some (JObj (spec_normalized kvs))"
      by (rule user_Resolved_cases)
    from user_accepts[OF normalized_satisfies(1)[OF ok]] normalized_satisfies(2)[OF ok] v
    show ?thesis by simp
  qed
  have mw: "parseAsync em CreateUserDTO body = Resolved v"
    if "validateRequest (parseAsync em CreateUserDTO) body = Next v"
    using that by (cases "parseAsync em CreateUserDTO body") (simp_all add: validateRequest_def)
  show ?thesis
  proof (intro conjI impI)
    assume "parseAsync em CreateUserDTO body = Resolved v"
    then show "parseAsync em CreateUserDTO v = Resolved v" by (rule main)
  next
    assume a: "validateRequest (parseAsync em CreateUserDTO) body = Next v"
    from main[OF mw[OF a]]
    show "validateRequest (parseAsync em CreateUserDTO) v = Next v"
      by (simp add: validateRequest_def)
  qed
qed

theorem validation_idempotent_on_output_witness:
  "parseAsync emailRegex CreateUserDTO
     (Some (JObj [(''extra'', JNull), (''email'', JStr ''al@example.com''), (''name'', JStr ''Al'')])) =
     Resolved (Some (JObj [(''name'', JStr ''Al''), (''email'', JStr ''al@example.com''),
                           (''roles'', JArr [JStr ''user''])])) \<and>
   parseAsync emailRegex CreateUserDTO
     (Some (JObj [(''name'', JStr ''Al''), (''email'', JStr ''al@example.com''),
                  (''roles'', JArr [JStr ''user''])])) =
     Resolved (Some (JObj [(''name'', JStr ''Al''), (''email'', JStr ''al@example.com''),
                           (''roles'', JArr [JStr ''user''])]))"
proof -
  let ?in = "[(''extra'', JNull), (''email'', JStr ''al@example.com''), (''name'', JStr ''Al'')]"
  have ok: "spec_satisfies emailRegex ?in"
    by (simp add: spec_satisfies_def emailRegex_al)
  have norm: "spec_normalized ?in =
          [(''name'', JStr ''Al''), (''email'', JStr ''al@example.com''),
           (''roles'', JArr [JStr ''user''])]"
    by (simp add: spec_normalized_def)
  have first: "parseAsync emailRegex CreateUserDTO (Some (JObj ?in)) =
     Resolved (Some (JObj [(''name'', JStr ''Al''), (''email'', JStr ''al@example.com''),
                           (''roles'', JArr [JStr ''user''])]))"
    using user_accepts[OF ok] unfolding norm .
  with validation_idempotent_on_output[of emailRegex "Some (JObj ?in)"] first
  show ?thesis by blast
qed




text \<open>
  C7.  An error thrown while the request is validated that is not a \<^verbatim>\<open>ZodError\<close> is
  passed to \<^verbatim>\<open>next\<close> and never answered with the 400 validation response; the
  middleware sends a response only for a \<^verbatim>\<open>ZodError\<close>.
\<close>

theorem other_errors_forwarded_to_next:
  "(schema_parseAsync body = Thrown error \<longrightarrow>
      validateRequest schema_parseAsync body = NextError error \<and>
      (\<forall>st j. validateRequest schema_parseAsync body \<noteq> Respond st j)) \<and>
   (validateRequest schema_parseAsync body = Respond st j \<longrightarrow>
      (\<exists>errors. schema_parseAsync body = ZodError errors \<and> st = 400 \<and>
                j = validation_failed errors))"
  by (cases "schema_parseAsync body") (simp_all add: validateRequest_def)

theorem other_errors_forwarded_to_next_witness:
  "validateRequest (\<lambda>b. Thrown (Error ''boom'')) (Some (JObj [])) = NextError (Error ''boom'') \<and>
   validateRequest (parseAsync emailRegex CreateUserDTO) (Some (JArr [])) =
     Respond 400 (validation_failed
       [\<lparr> code = invalid_type,
           extras = [(''expected'', JStr ''object''), (''received'', JStr ''array'')],
           path = [], message = ''Expected object, received array'' \<rparr>])"
proof -
  have a: "validateRequest (\<lambda>b. Thrown (Error ''boom'')) (Some (JObj [])) = NextError (Error ''boom'')"
    using other_errors_forwarded_to_next
      [of "\<lambda>b. Thrown (Error ''boom'')" "Some (JObj [])" "Error ''boom''" 400 JNull]
    by simp
  have b: "validateRequest (parseAsync emailRegex CreateUserDTO) (Some (JArr [])) =
     Respond 400 (validation_failed
       [\<lparr> code = invalid_type,
           extras = [(''expected'', JStr ''object''), (''received'', JStr ''array'')],
           path = [], message = ''Expected object, received array'' \<rparr>])"
    by (simp add: validateRequest_def parseAsync_def CreateUserDTO_def UserSchema_def INVALID_def
          type_issue_def schema_message_def default_invalid_type_def)
  show ?thesis using a b by simp
qed

text \<open>
  C8.  The list-users query schema.  An input without any of the three fields gives
  \<open>includeRoles\<close> false, \<open>page\<close> 1 and \<open>limit\<close> 10.  An object is accepted exactly when
  \<open>includeRoles\<close> is absent or a boolean, \<open>page\<close> is absent or an integer that is at
  least 1, and \<open>limit\<close> is absent or an integer from 1 to 100; it is then returned with
  the absent fields set to their defaults.  \<open>limit\<close> 100 is accepted, 101 and 0 are
  rejected.
\<close>

theorem list_users_query_defaults_and_bounds:
  "(map_of kvs ''includeRoles'' = None \<and> map_of kvs ''page'' = None \<and>
    map_of kvs ''limit'' = None \<longrightarrow>
      parseAsync em GetUserQueryDTO (Some (JObj kvs)) =
        Resolved (Some (JObj [(''includeRoles'', JBool False), (''page'', JNum 1),
                              (''limit'', JNum 10)]))) \<and>
   ((\<exists>v. parseAsync em GetUserQueryDTO (Some (JObj kvs)) = Resolved v) \<longleftrightarrow> spec_query_ok kvs) \<and>
   (spec_query_ok kvs \<longrightarrow>
      parseAsync em GetUserQueryDTO (Some (JObj kvs)) =
        Resolved (Some (JObj (spec_query_normalized kvs)))) \<and>
   parseAsync em GetUserQueryDTO (Some (JObj [(''limit'', JNum 100)])) =
     Resolved (Some (JObj [(''includeRoles'', JBool False), (''page'', JNum 1),
                           (''limit'', JNum 100)])) \<and>
   parseAsync em GetUserQueryDTO (Some (JObj [(''limit'', JNum 101)])) =
     ZodError [\<lparr> code = too_big,
                 extras = [(''maximum'', JNum 100), (''type'', JStr ''number''),
                           (''inclusive'', JBool True), (''exact'', JBool False)],
                 path = [Key ''limit''], message = ''Limit cannot exceed 100.'' \<rparr>] \<and>
   parseAsync em GetUserQueryDTO (Some (JObj [(''limit'', JNum 0)])) =
     ZodError [\<lparr> code = too_small,
                 extras = [(''minimum'', JNum 1), (''type'', JStr ''number''),
                           (''inclusive'', JBool True), (''exact'', JBool False)],
                 path = [Key ''limit''], message = ''Limit must be at least 1.'' \<rparr>]"
proof (intro conjI impI)
  assume a: "map_of kvs ''includeRoles'' = None \<and> map_of kvs ''page'' = None \<and>
             map_of kvs ''limit'' = None"
  then have ok: "spec_query_ok kvs" by (simp add: spec_query_ok_def)
  have "spec_query_normalized kvs =
          [(''includeRoles'', JBool False), (''page'', JNum 1), (''limit'', JNum 10)]"
    using a by (simp add: spec_query_normalized_def)
  with parseAsync_valid[OF query_result[OF ok]]
  show "parseAsync em GetUserQueryDTO (Some (JObj kvs)) =
        Resolved (Some (JObj [(''includeRoles'', JBool False), (''page'', JNum 1),
                              (''limit'', JNum 10)]))"
    by simp
next
  show "(\<exists>v. parseAsync em GetUserQueryDTO (Some (JObj kvs)) = Resolved v) \<longleftrightarrow> spec_query_ok kvs"
  proof
    assume "\<exists>v. parseAsync em GetUserQueryDTO (Some (JObj kvs)) = Resolved v"
    then obtain v where "zparse em GetUserQueryDTO [] (Some (JObj kvs)) = ((Valid, v), [])"
      by (auto simp only: parseAsync_Resolved_iff)
    then have "fst (fst (zparse em GetUserQueryDTO [] (Some (JObj kvs)))) = Valid" by simp
    then show "spec_query_ok kvs" by (simp only: query_Valid_iff)
  next
    assume "spec_query_ok kvs"
    from parseAsync_valid[OF query_result[OF this]]
    show "\<exists>v. parseAsync em GetUserQueryDTO (Some (JObj kvs)) = Resolved v" by blast
  qed
next
  assume "spec_query_ok kvs"
  from parseAsync_valid[OF query_result[OF this]]
  show "parseAsync em GetUserQueryDTO (Some (JObj kvs)) =
        Resolved (Some (JObj (spec_query_normalized kvs)))" .
next
  have ok: "spec_query_ok [(''limit'', JNum 100)]" by (simp add: spec_query_ok_def)
  have "spec_query_normalized [(''limit'', JNum 100)] =
          [(''includeRoles'', JBool False), (''page'', JNum 1), (''limit'', JNum 100)]"
    by (simp add: spec_query_normalized_def)
  with parseAsync_valid[OF query_result[OF ok]]
  show "parseAsync em GetUserQueryDTO (Some (JObj [(''limit'', JNum 100)])) =
     Resolved (Some (JObj [(''includeRoles'', JBool False), (''page'', JNum 1),
                           (''limit'', JNum 100)]))"
    by simp
next
  have "\<not> spec_query_ok [(''limit'', JNum 101)]" by (simp add: spec_query_ok_def)
  then have "fst (fst (zparse em GetUserQueryDTO [] (Some (JObj [(''limit'', JNum 101)])))) \<noteq> Valid"
    by (simp only: query_Valid_iff not_False_eq_True)
  from parseAsync_invalid(1)[OF this]
  show "parseAsync em GetUserQueryDTO (Some (JObj [(''limit'', JNum 101)])) =
     ZodError [\<lparr> code = too_big,
                 extras = [(''maximum'', JNum 100), (''type'', JStr ''number''),
                           (''inclusive'', JBool True), (''exact'', JBool False)],
                 path = [Key ''limit''], message = ''Limit cannot exceed 100.'' \<rparr>]"
    unfolding query_limit_101 .
next
  have "\<not> spec_query_ok [(''limit'', JNum 0)]" by (simp add: spec_query_ok_def)
  then have "fst (fst (zparse em GetUserQueryDTO [] (Some (JObj [(''limit'', JNum 0)])))) \<noteq> Valid"
    by (simp only: query_Valid_iff not_False_eq_True)
  from parseAsync_invalid(1)[OF this]
  show "parseAsync em GetUserQueryDTO (Some (JObj [(''limit'', JNum 0)])) =
     ZodError [\<lparr> code = too_small,
                 extras = [(''minimum'', JNum 1), (''type'', JStr ''number''),
                           (''inclusive'', JBool True), (''exact'', JBool False)],
                 path = [Key ''limit''], message = ''Limit must be at least 1.'' \<rparr>]"
    unfolding query_limit_0 .
qed

theorem list_users_query_defaults_and_bounds_witness:
  "parseAsync emailRegex GetUserQueryDTO (Some (JObj [])) =
     Resolved (Some (JObj [(''includeRoles'', JBool False), (''page'', JNum 1),
                           (''limit'', JNum 10)])) \<and>
   spec_query_ok [] \<and>
   \<not> spec_query_ok [(''page'', JNum 0)] \<and>
   (\<nexists>v. parseAsync emailRegex GetUserQueryDTO (Some (JObj [(''page'', JNum 0)])) = Resolved v) \<and>
   spec_query_ok [(''page'', JNum 3), (''includeRoles'', JBool True)] \<and>
   parseAsync emailRegex GetUserQueryDTO
       (Some (JObj [(''page'', JNum 3), (''includeRoles'', JBool True)])) =
     Resolved (Some (JObj [(''includeRoles'', JBool True), (''page'', JNum 3),
                           (''limit'', JNum 10)]))"
proof -
  have e: "map_of ([] :: (string \<times> json) list) ''includeRoles'' = None \<and>
           map_of ([] :: (string \<times> json) list) ''page'' = None \<and>
           map_of ([] :: (string \<times> json) list) ''limit'' = None"
    by simp
  have ok0: "spec_query_ok []" by (simp add: spec_query_ok_def)
  have bad: "\<not> spec_query_ok [(''page'', JNum 0)]" by (simp add: spec_query_ok_def)
  have ok3: "spec_query_ok [(''page'', JNum 3), (''includeRoles'', JBool True)]"
    by (simp add: spec_query_ok_def)
  have n3: "spec_query_normalized [(''page'', JNum 3), (''includeRoles'', JBool True)] =
      [(''includeRoles'', JBool True), (''page'', JNum 3), (''limit'', JNum 10)]"
    by (simp add: spec_query_normalized_def)
  note t0 = list_users_query_defaults_and_bounds[of "[]" emailRegex]
  note t1 = list_users_query_defaults_and_bounds[of "[(''page'', JNum 0)]" emailRegex]
  note t3 = list_users_query_defaults_and_bounds
              [of "[(''page'', JNum 3), (''includeRoles'', JBool True)]" emailRegex, unfolded n3]
  from t0 e have a: "parseAsync emailRegex GetUserQueryDTO (Some (JObj [])) =
     Resolved (Some (JObj [(''includeRoles'', JBool False), (''page'', JNum 1),
                           (''limit'', JNum 10)]))"
    by blast
  from t1 bad have b: "\<nexists>v. parseAsync emailRegex GetUserQueryDTO
      (Some (JObj [(''page'', JNum 0)])) = Resolved v"
    by blast
  from t3 ok3 have c: "parseAsync emailRegex GetUserQueryDTO
       (Some (JObj [(''page'', JNum 3), (''includeRoles'', JBool True)])) =
     Resolved (Some (JObj [(''includeRoles'', JBool True), (''page'', JNum 3),
                           (''limit'', JNum 10)]))"
    by blast
  from a ok0 bad b ok3 c show ?thesis by blast
qed

text \<open>
  C9.  Keys that the user schema does not declare are dropped: a valid payload that
  also has such a key is accepted, and the body of the 201 response has only declared
  fields, so it lacks that key and differs from the request body.
\<close>

theorem undeclared_keys_are_stripped:
  assumes "spec_satisfies em kvs"
      and "map_of kvs k = Some x"
      and "k \<notin> {''name'', ''email'', ''age'', ''roles''}"
  shows "post_users em (Some (JObj kvs)) = Response 201 (Some (JObj (spec_normalized kvs))) \<and>
         set (map fst (spec_normalized kvs)) \<subseteq> {''name'', ''email'', ''age'', ''roles''} \<and>
         json_member k (JObj (spec_normalized kvs)) = None \<and>
         JObj (spec_normalized kvs) \<noteq> JObj kvs"
proof -
  have keys: "set (map fst (spec_normalized kvs)) \<subseteq> {''name'', ''email'', ''age'', ''roles''}"
    by (auto simp: spec_normalized_def split: option.splits)
  then have "k \<notin> fst ` set (spec_normalized kvs)"
    using assms(3) by auto
  then have none: "map_of (spec_normalized kvs) k = None"
    by (simp add: map_of_eq_None_iff)
  with assms(2) have "spec_normalized kvs \<noteq> kvs" by auto
  with post_users_Resolved[OF user_accepts[OF assms(1)]] keys none
  show ?thesis by simp
qed

theorem undeclared_keys_are_stripped_witness:
  "spec_satisfies emailRegex
     [(''name'', JStr ''Al''), (''isAdmin'', JBool True), (''email'', JStr ''al@example.com'')] \<and>
   post_users emailRegex
     (Some (JObj [(''name'', JStr ''Al''), (''isAdmin'', JBool True),
                  (''email'', JStr ''al@example.com'')])) =
     Response 201 (Some (JObj [(''name'', JStr ''Al''), (''email'', JStr ''al@example.com''),
                               (''roles'', JArr [JStr ''user''])])) \<and>
   json_member ''isAdmin'' (JObj [(''name'', JStr ''Al''), (''email'', JStr ''al@example.com''),
                               (''roles'', JArr [JStr ''user''])]) = None"
proof -
  let ?in = "[(''name'', JStr ''Al''), (''isAdmin'', JBool True), (''email'', JStr ''al@example.com'')]"
  have ok: "spec_satisfies emailRegex ?in"
    by (simp add: spec_satisfies_def emailRegex_al)
  have k: "map_of ?in ''isAdmin'' = Some (JBool True)" by simp
  have nk: "''isAdmin'' \<notin> {''name'', ''email'', ''age'', ''roles''}" by simp
  have norm: "spec_normalized ?in =
          [(''name'', JStr ''Al''), (''email'', JStr ''al@example.com''),
           (''roles'', JArr [JStr ''user''])]"
    by (simp add: spec_normalized_def)
  show ?thesis
    using undeclared_keys_are_stripped[OF ok k nk] ok unfolding norm by simp
qed

text \<open>
  C10.  When an element of \<open>roles\<close> is outside the enumeration, \<open>details\<close> has an entry
  whose path is \<open>roles\<close> followed by the numeric index of that element, and which has
  members besides \<open>code\<close>, \<open>message\<close> and \<open>path\<close>: the entries are the parser's issues
  as they are.  The schema registered for the 400 response declares \<open>path\<close> as an array
  of strings, so it does not accept the body that the route sends in this case.
\<close>

theorem roles_issue_path_breaks_documented_schema:
  assumes "map_of kvs ''roles'' = Some (JArr xs)"
      and "i < length xs"
      and "\<not> spec_role_ok (xs ! i)"
  shows "(\<exists>e\<in>set (snd (zparse em CreateUserDTO [] (Some (JObj kvs)))).
            path e = [Key ''roles'', Idx i] \<and>
            json_member ''path'' (issue_json e) = Some (JArr [JStr ''roles'', JNum (of_nat i)]) \<and>
            extras e \<noteq> []) \<and>
         post_users em (Some (JObj kvs)) =
           Response 400 (Some (validation_failed
             (snd (zparse em CreateUserDTO [] (Some (JObj kvs)))))) \<and>
         parseAsync em ValidationErrorResponse
             (Some (validation_failed (snd (zparse em CreateUserDTO [] (Some (JObj kvs)))))) =
           ZodError (snd (zparse em ValidationErrorResponse []
             (Some (validation_failed (snd (zparse em CreateUserDTO [] (Some (JObj kvs))))))))"
proof -
  let ?errors = "snd (zparse em CreateUserDTO [] (Some (JObj kvs)))"
  from user_roles_issue[OF assms, of em]
  obtain e where e: "e \<in> set ?errors" "path e = [Key ''roles'', Idx i]" "extras e \<noteq> []"
    unfolding CreateUserDTO_def by blast
  have j: "json_member ''path'' (issue_json e) = Some (JArr [JStr ''roles'', JNum (of_nat i)])"
    by (simp add: issue_json_members(3) e(2))
  have "?errors \<noteq> []" using e(1) by auto
  then have "fst (fst (zparse em CreateUserDTO [] (Some (JObj kvs)))) \<noteq> Valid"
    by (simp only: zparse_Valid_iff not_False_eq_True)
  from parseAsync_invalid(1)[OF this]
  have p: "post_users em (Some (JObj kvs)) = Response 400 (Some (validation_failed ?errors))"
    by (simp add: post_users_ZodError)
  have "Idx i \<in> set (path e)" by (simp add: e(2))
  with e(1) have "fst (fst (zparse em ValidationErrorResponse []
                     (Some (validation_failed ?errors)))) \<noteq> Valid"
    by (rule response_not_documented)
  from parseAsync_invalid(1)[OF this] e j p show ?thesis by blast
qed

theorem roles_issue_path_breaks_documented_schema_witness:
  "map_of [(''name'', JStr ''Bo''), (''email'', JStr ''bo@x.com''),
           (''roles'', JArr [JStr ''owner''])] ''roles'' = Some (JArr [JStr ''owner'']) \<and>
   (0 :: nat) < length [JStr ''owner''] \<and>
   \<not> spec_role_ok ([JStr ''owner''] ! 0) \<and>
   post_users emailRegex
       (Some (JObj [(''name'', JStr ''Bo''), (''email'', JStr ''bo@x.com''),
                    (''roles'', JArr [JStr ''owner''])])) =
     Response 400 (Some (JObj [(''error'', JStr ''Validation failed''),
       (''details'', JArr
          [JObj [(''code'', JStr ''invalid_enum_value''),
                 (''message'', JStr ''Role must be 'admin' or 'user'.''),
                 (''path'', JArr [JStr ''roles'', JNum 0]),
                 (''received'', JStr ''owner''),
                 (''options'', JArr [JStr ''admin'', JStr ''user''])]])])) \<and>
   parseAsync emailRegex ValidationErrorResponse
       (Some (JObj [(''error'', JStr ''Validation failed''),
          (''details'', JArr
             [JObj [(''code'', JStr ''invalid_enum_value''),
                    (''message'', JStr ''Role must be 'admin' or 'user'.''),
                    (''path'', JArr [JStr ''roles'', JNum 0]),
                    (''received'', JStr ''owner''),
                    (''options'', JArr [JStr ''admin'', JStr ''user''])]])])) =
     ZodError [\<lparr> code = invalid_type,
                 extras = [(''expected'', JStr ''string''), (''received'', JStr ''number'')],
                 path = [Key ''details'', Idx 0, Key ''path'', Idx 1],
                 message = ''Expected string, received number'' \<rparr>]"
proof -
  let ?bo = "[(''name'', JStr ''Bo''), (''email'', JStr ''bo@x.com''),
              (''roles'', JArr [JStr ''owner''])]"
  let ?body = "JObj [(''error'', JStr ''Validation failed''),
       (''details'', JArr
          [JObj [(''code'', JStr ''invalid_enum_value''),
                 (''message'', JStr ''Role must be 'admin' or 'user'.''),
                 (''path'', JArr [JStr ''roles'', JNum 0]),
                 (''received'', JStr ''owner''),
                 (''options'', JArr [JStr ''admin'', JStr ''user''])]])]"
  have h1: "map_of ?bo ''roles'' = Some (JArr [JStr ''owner''])" by simp
  have h2: "(0 :: nat) < length [JStr ''owner'']" by simp
  have h3: "\<not> spec_role_ok ([JStr ''owner''] ! 0)" by (simp add: spec_role_ok_def)
  have errors: "snd (zparse emailRegex CreateUserDTO [] (Some (JObj ?bo))) =
     [\<lparr> code = invalid_enum_value,
         extras = [(''received'', JStr ''owner''),
                   (''options'', JArr [JStr ''admin'', JStr ''user''])],
         path = [Key ''roles'', Idx 0],
         message = ''Role must be 'admin' or 'user'.'' \<rparr>]"
    unfolding CreateUserDTO_def by (rule user_parse_owner) (rule emailRegex_bo)
  have body: "validation_failed
     [\<lparr> code = invalid_enum_value,
         extras = [(''received'', JStr ''owner''),
                   (''options'', JArr [JStr ''admin'', JStr ''user''])],
         path = [Key ''roles'', Idx 0],
         message = ''Role must be 'admin' or 'user'.'' \<rparr>] = ?body"
    by (simp add: validation_failed_def issue_json_def)
  have doc: "snd (zparse emailRegex ValidationErrorResponse [] (Some ?body)) =
     [\<lparr> code = invalid_type,
         extras = [(''expected'', JStr ''string''), (''received'', JStr ''number'')],
         path = [Key ''details'', Idx 0, Key ''path'', Idx 1],
         message = ''Expected string, received number'' \<rparr>]"
    by (simp add: ValidationErrorResponse_def checked_def INVALID_def type_issue_def
          schema_message_def default_invalid_type_def)
  note t = roles_issue_path_breaks_documented_schema[OF h1 h2 h3, of emailRegex]
  from t have "post_users emailRegex (Some (JObj ?bo)) = Response 400 (Some ?body)"
    unfolding errors body by blast
  moreover from t have "parseAsync emailRegex ValidationErrorResponse (Some ?body) =
     ZodError (snd (zparse emailRegex ValidationErrorResponse [] (Some ?body)))"
    unfolding errors body by blast
  ultimately show ?thesis
    unfolding doc using h1 h2 h3 by blast
qed

end
